theory Spec2Isabelle
  imports Complex_Main "HOL-Library.AList" "HOL-Library.Sublist"
begin

section \<open>Python values\<close>

text \<open>
  The settlement service (\<^verbatim>\<open>src/acme/client.py\<close>) works on the JSON documents of the
  upstream payments API, as \<^verbatim>\<open>response.json()\<close> returns them: dictionaries, lists,
  strings, integers, booleans and \<^verbatim>\<open>None\<close>. A dictionary is an association list in
  insertion order; \<^verbatim>\<open>d[k] = v\<close> is \<open>AList.update\<close> and a lookup is \<open>map_of\<close>.
  Strings are sequences of the code points 0 to 255. JSON numbers with a fraction would
  become binary floats and are not part of the model.
\<close>

datatype json =
    JNull
  | JBool bool
  | JInt int
  | JStr string
  | JList "json list"
  | JObj "(string \<times> json) list"

type_synonym py_dict = "(string \<times> json) list"

subsection \<open>\<^verbatim>\<open>str\<close> and \<^verbatim>\<open>repr\<close>\<close>

definition digit_char :: "nat \<Rightarrow> char" where
  "digit_char d = (''0123456789abcdef'' ! d)"

fun str_nat :: "nat \<Rightarrow> string" where
  "str_nat n = (if n < 10 then [digit_char n] else str_nat (n div 10) @ [digit_char (n mod 10)])"

declare str_nat.simps [simp del]

definition str_int :: "int \<Rightarrow> string" where
  "str_int i = (if i < 0 then CHR ''-'' # str_nat (nat (- i)) else str_nat (nat i))"

text \<open>\<^verbatim>\<open>sep.join(parts)\<close>\<close>

fun join :: "string \<Rightarrow> string list \<Rightarrow> string" where
  "join sep [] = []"
| "join sep [p] = p"
| "join sep (p # q # ps) = p @ sep @ join sep (q # ps)"

text \<open>
  \<^verbatim>\<open>repr\<close> of a string: double quotes when the text holds a single quote and no double
  quote, single quotes otherwise; the quote, the backslash and the characters that are
  not printable are escaped.
\<close>

definition printable :: "char \<Rightarrow> bool" where
  "printable c \<longleftrightarrow> (let n = (of_char c :: nat) in
     32 \<le> n \<and> n \<noteq> 127 \<and> \<not> (128 \<le> n \<and> n \<le> 160) \<and> n \<noteq> 173)"

definition escape_char :: "char \<Rightarrow> char \<Rightarrow> string" where
  "escape_char quote c =
     (if c = quote \<or> c = CHR 0x5C then [CHR 0x5C, c]
      else if c = CHR 0x09 then [CHR 0x5C, CHR ''t'']
      else if c = CHR 0x0A then [CHR 0x5C, CHR ''n'']
      else if c = CHR 0x0D then [CHR 0x5C, CHR ''r'']
      else if printable c then [c]
      else [CHR 0x5C, CHR ''x'', digit_char (of_char c div 16), digit_char (of_char c mod 16)])"

definition repr_str :: "string \<Rightarrow> string" where
  "repr_str s =
     (let quote = (if CHR 0x27 \<in> set s \<and> CHR 0x22 \<notin> set s then CHR 0x22 else CHR 0x27)
      in quote # concat (map (escape_char quote) s) @ [quote])"

fun py_repr :: "json \<Rightarrow> string" where
  "py_repr JNull = ''None''"
| "py_repr (JBool b) = (if b then ''True'' else ''False'')"
| "py_repr (JInt i) = str_int i"
| "py_repr (JStr s) = repr_str s"
| "py_repr (JList xs) = ''['' @ join '', '' (map py_repr xs) @ '']''"
| "py_repr (JObj kvs) =
     ''{'' @ join '', '' (map (\<lambda>kv. repr_str (fst kv) @ '': '' @ py_repr (snd kv)) kvs) @ ''}''"

fun py_str :: "json \<Rightarrow> string" where
  "py_str (JStr s) = s"
| "py_str v = py_repr v"

text \<open>\<^verbatim>\<open>needle in haystack\<close> on strings.\<close>

fun contains :: "string \<Rightarrow> string \<Rightarrow> bool" where
  "contains [] needle = (needle = [])"
| "contains (c # cs) needle = (prefix needle (c # cs) \<or> contains cs needle)"

text \<open>Truth value of a Python object, as \<^verbatim>\<open>if x\<close> and \<^verbatim>\<open>not x\<close> take it.\<close>

fun truthy :: "json \<Rightarrow> bool" where
  "truthy JNull = False"
| "truthy (JBool b) = b"
| "truthy (JInt i) = (i \<noteq> 0)"
| "truthy (JStr s) = (s \<noteq> [])"
| "truthy (JList xs) = (xs \<noteq> [])"
| "truthy (JObj kvs) = (kvs \<noteq> [])"

subsection \<open>Exceptions\<close>

text \<open>
  An exception object is its class and its \<^verbatim>\<open>args\<close>. Every exception of this
  program is built from one argument; \<^verbatim>\<open>str(e)\<close> is then \<^verbatim>\<open>str\<close> of that
  argument, and its \<^verbatim>\<open>repr\<close> for a \<^verbatim>\<open>KeyError\<close>.
\<close>

datatype exc_class =
    Exception
  | ValueError
  | TypeError
  | KeyError
  | AttributeError
  | OverflowError
  | InvalidOperation
  | Overflow

datatype py_exception = Exc exc_class "json list"

fun exc_class_of :: "py_exception \<Rightarrow> exc_class" where
  "exc_class_of (Exc c args) = c"

fun exc_args :: "py_exception \<Rightarrow> json list" where
  "exc_args (Exc c args) = args"

fun exc_str :: "py_exception \<Rightarrow> string" where
  "exc_str (Exc c []) = []"
| "exc_str (Exc c [a]) = (if c = KeyError then py_repr a else py_str a)"
| "exc_str (Exc c args) = ''('' @ join '', '' (map py_repr args) @ '')''"

text \<open>The name of a value's type, as the interpreter's error messages print it.\<close>

fun type_name :: "json \<Rightarrow> string" where
  "type_name JNull = ''NoneType''"
| "type_name (JBool b) = ''bool''"
| "type_name (JInt i) = ''int''"
| "type_name (JStr s) = ''str''"
| "type_name (JList xs) = ''list''"
| "type_name (JObj kvs) = ''dict''"

section \<open>Dates and times\<close>

text \<open>
  A \<^verbatim>\<open>datetime\<close> with its calendar and clock fields. \<open>tzinfo\<close> is the key of the
  \<^verbatim>\<open>ZoneInfo\<close> object attached, \<open>None\<close> for a naive value; \<^verbatim>\<open>ZoneInfo\<close> keeps one
  object per key, so two values have the same zone object when the keys agree. A
  \<^verbatim>\<open>timedelta\<close> is its length in microseconds.
\<close>

record datetime =
  year :: int
  month :: int
  day :: int
  hour :: int
  minute :: int
  second :: int
  microsecond :: int
  tzinfo :: "string option"

definition is_leap :: "int \<Rightarrow> bool" where
  "is_leap y \<longleftrightarrow> y mod 4 = 0 \<and> (y mod 100 \<noteq> 0 \<or> y mod 400 = 0)"

definition days_in_month :: "int \<Rightarrow> int \<Rightarrow> int" where
  "days_in_month y m =
     (if m = 2 then (if is_leap y then 29 else 28)
      else if m = 4 \<or> m = 6 \<or> m = 9 \<or> m = 11 then 30 else 31)"

definition days_before_year :: "int \<Rightarrow> int" where
  "days_before_year y = (y - 1) * 365 + (y - 1) div 4 - (y - 1) div 100 + (y - 1) div 400"

definition days_before_month :: "int \<Rightarrow> int \<Rightarrow> int" where
  "days_before_month y m =
     [0, 31, 59, 90, 120, 151, 181, 212, 243, 273, 304, 334] ! nat (m - 1)
       + (if 2 < m \<and> is_leap y then 1 else 0)"

definition valid_date :: "datetime \<Rightarrow> bool" where
  "valid_date d \<longleftrightarrow> 1 \<le> year d \<and> year d \<le> 9999 \<and> 1 \<le> month d \<and> month d \<le> 12
     \<and> 1 \<le> day d \<and> day d \<le> days_in_month (year d) (month d)"

text \<open>\<^verbatim>\<open>d.toordinal()\<close>: the day number in the proleptic Gregorian calendar, 1 for 0001-01-01.\<close>

definition toordinal :: "datetime \<Rightarrow> int" where
  "toordinal d = days_before_year (year d) + days_before_month (year d) (month d) + day d"

text \<open>
  \<^verbatim>\<open>d - timedelta(days=1)\<close>: the clock fields and the zone stay, the date becomes the
  calendar day before (the date of ordinal \<open>toordinal d - 1\<close>, see \<open>toordinal_minus_one_day\<close>);
  there is no day before 0001-01-01 and the subtraction raises \<^verbatim>\<open>OverflowError\<close>.
\<close>

definition minus_one_day :: "datetime \<Rightarrow> py_exception + datetime" where
  "minus_one_day d =
     (if year d = 1 \<and> month d = 1 \<and> day d = 1
        then Inl (Exc OverflowError [JStr ''date value out of range''])
      else if 1 < day d then Inr (d\<lparr>day := day d - 1\<rparr>)
      else if 1 < month d
        then Inr (d\<lparr>month := month d - 1, day := days_in_month (year d) (month d - 1)\<rparr>)
      else Inr (d\<lparr>year := year d - 1, month := 12, day := 31\<rparr>))"

text \<open>\<^verbatim>\<open>d.replace(hour=23, minute=59, second=59, microsecond=999999)\<close>\<close>

definition end_of_day :: "datetime \<Rightarrow> datetime" where
  "end_of_day d = d\<lparr>hour := 23, minute := 59, second := 59, microsecond := 999999\<rparr>"

text \<open>
  The zone database: for each key it knows, the offset from UTC (in microseconds) that the
  zone has at a wall-clock time. \<^verbatim>\<open>ZoneInfo(key)\<close> raises for any other key.
\<close>

type_synonym tzdb = "string \<Rightarrow> (datetime \<Rightarrow> int) option"

definition ZoneInfo :: "tzdb \<Rightarrow> string \<Rightarrow> py_exception + string" where
  "ZoneInfo db key =
     (case db key of
        None \<Rightarrow> Inl (Exc KeyError [JStr (''No time zone found with key '' @ key)])
      | Some off \<Rightarrow> Inr key)"

definition utcoffset :: "tzdb \<Rightarrow> datetime \<Rightarrow> int option" where
  "utcoffset db d =
     (case tzinfo d of
        None \<Rightarrow> None
      | Some key \<Rightarrow> (case db key of None \<Rightarrow> None | Some off \<Rightarrow> Some (off d)))"

definition wall_clock_diff :: "datetime \<Rightarrow> datetime \<Rightarrow> int" where
  "wall_clock_diff a b =
     (toordinal a - toordinal b) * 86400000000
       + ((hour a * 3600 + minute a * 60 + second a) - (hour b * 3600 + minute b * 60 + second b))
           * 1000000
       + (microsecond a - microsecond b)"

text \<open>
  \<^verbatim>\<open>a - b\<close> on two datetimes: the difference of the wall clocks when both carry the same zone
  object (or equal offsets), corrected by the offsets otherwise.
\<close>

definition datetime_sub :: "tzdb \<Rightarrow> datetime \<Rightarrow> datetime \<Rightarrow> py_exception + int" where
  "datetime_sub db a b =
     (if tzinfo a = tzinfo b then Inr (wall_clock_diff a b)
      else if utcoffset db a = utcoffset db b then Inr (wall_clock_diff a b)
      else (case (utcoffset db a, utcoffset db b) of
              (Some myoff, Some otoff) \<Rightarrow> Inr (wall_clock_diff a b + otoff - myoff)
            | _ \<Rightarrow> Inl (Exc TypeError [JStr ''can't subtract offset-naive and offset-aware datetimes''])))"

text \<open>The time that really passes from instant \<open>b\<close> to instant \<open>a\<close>, both aware.\<close>

definition elapsed :: "tzdb \<Rightarrow> datetime \<Rightarrow> datetime \<Rightarrow> int option" where
  "elapsed db a b =
     (case (utcoffset db a, utcoffset db b) of
        (Some myoff, Some otoff) \<Rightarrow> Some (wall_clock_diff a b + otoff - myoff)
      | _ \<Rightarrow> None)"

section \<open>The outside world\<close>

text \<open>
  What the program does to its surroundings is recorded in a trace: the HTTP requests it
  sends, the pauses of \<^verbatim>\<open>time.sleep\<close> (in seconds) and the log records it writes (level
  and line of the logging call in \<^verbatim>\<open>client.py\<close>). What the surroundings do to the program
  is an environment: \<open>transport n\<close> is how the \<open>n\<close>-th \<^verbatim>\<open>session.get\<close> of the run ends,
  \<open>jitter n\<close> is the \<open>n\<close>-th value drawn by \<^verbatim>\<open>random.uniform(0, 1)\<close>. A response
  carries its status code and, as the body, the dictionary \<^verbatim>\<open>response.json()\<close> returns.
\<close>

datatype outcome =
    Response int py_dict
  | Timeout
  | RequestException string

datatype param = PInt int | PStr string | PIso datetime

datatype log_level = WARNING | ERROR

datatype event =
    HttpGet string "(string \<times> param) list option"
  | Sleep rat
  | Log log_level nat

record env =
  base_url :: string
  transport :: "nat \<Rightarrow> outcome"
  jitter :: "nat \<Rightarrow> rat"
  zones :: tzdb

record world =
  calls :: nat
  draws :: nat
  trace :: "event list"

definition emit :: "event \<Rightarrow> world \<Rightarrow> world" where
  "emit e w = w\<lparr>trace := trace w @ [e]\<rparr>"

definition session_get ::
  "env \<Rightarrow> string \<Rightarrow> (string \<times> param) list option \<Rightarrow> world \<Rightarrow> outcome \<times> world" where
  "session_get E url params w =
     (transport E (calls w), emit (HttpGet url params) (w\<lparr>calls := Suc (calls w)\<rparr>))"

text \<open>\<^verbatim>\<open>time.sleep(2**attempt + random.uniform(0, 1))\<close>\<close>

definition backoff :: "env \<Rightarrow> nat \<Rightarrow> world \<Rightarrow> world" where
  "backoff E attempt w =
     emit (Sleep (2 ^ attempt + jitter E (draws w))) (w\<lparr>draws := Suc (draws w)\<rparr>)"

section \<open>The API client\<close>

text \<open>The records \<^verbatim>\<open>_make_request\<close> appends to \<^verbatim>\<open>failed_attempts\<close>, one per failed attempt.\<close>

definition http_error_record :: "nat \<Rightarrow> int \<Rightarrow> json" where
  "http_error_record attempt status_code =
     JObj [(''attempt'', JInt (int attempt + 1)), (''status_code'', JInt status_code),
           (''error_type'', JStr ''http_error'')]"

definition timeout_record :: "nat \<Rightarrow> json" where
  "timeout_record attempt =
     JObj [(''attempt'', JInt (int attempt + 1)), (''status_code'', JNull),
           (''error_type'', JStr ''timeout'')]"

definition request_exception_record :: "nat \<Rightarrow> string \<Rightarrow> json" where
  "request_exception_record attempt msg =
     JObj [(''attempt'', JInt (int attempt + 1)), (''status_code'', JNull),
           (''error_type'', JStr ''request_exception''), (''error_message'', JStr msg)]"

definition request_metadata :: "json list \<Rightarrow> nat \<Rightarrow> json" where
  "request_metadata failed_attempts attempt =
     JObj [(''failed_attempts'', JList failed_attempts), (''total_attempts'', JInt (int attempt + 1))]"

text \<open>
  The loop \<^verbatim>\<open>for attempt in range(retries)\<close> of \<^verbatim>\<open>_make_request\<close>, entered at
  \<open>attempt\<close> with the failures recorded so far. The three \<^verbatim>\<open>raise\<close> statements of the
  last attempt leave the function, since no \<^verbatim>\<open>except\<close> clause takes a plain
  \<^verbatim>\<open>Exception\<close>; the \<^verbatim>\<open>raise\<close> after the loop is reached when the loop has no
  iteration at all.
\<close>

function make_request_loop ::
  "env \<Rightarrow> string \<Rightarrow> (string \<times> param) list option \<Rightarrow> nat \<Rightarrow> nat \<Rightarrow> json list \<Rightarrow> world
     \<Rightarrow> (py_exception + py_dict) \<times> world" where
  "make_request_loop E url params retries attempt failed_attempts w =
     (if retries \<le> attempt
        then (Inl (Exc Exception [JStr (''All retry attempts failed. Failed attempts: ''
                @ py_repr (JList failed_attempts))]), w)
      else
        (case session_get E url params w of
           (Response status_code body, w1) \<Rightarrow>
             if status_code = 200
               then (Inr (if failed_attempts \<noteq> []
                            then AList.update ''_request_metadata''
                                   (request_metadata failed_attempts attempt) body
                            else body), w1)
             else
               (let failed = failed_attempts @ [http_error_record attempt status_code];
                    w2 = emit (Log WARNING 60) w1
                in if attempt = retries - 1
                     then (Inl (Exc Exception [JStr (''API request failed with status ''
                             @ str_int status_code @ ''. Failed attempts: ''
                             @ py_repr (JList failed))]), w2)
                   else make_request_loop E url params retries (Suc attempt) failed
                          (backoff E attempt w2))
         | (Timeout, w1) \<Rightarrow>
             (let failed = failed_attempts @ [timeout_record attempt];
                  w2 = emit (Log WARNING 76) w1
              in if attempt = retries - 1
                   then (Inl (Exc Exception [JStr
                           (''API request timed out after multiple attempts. Failed attempts: ''
                              @ py_repr (JList failed))]), w2)
                 else make_request_loop E url params retries (Suc attempt) failed
                        (backoff E attempt w2))
         | (RequestException msg, w1) \<Rightarrow>
             (let failed = failed_attempts @ [request_exception_record attempt msg];
                  w2 = emit (Log WARNING 91) w1
              in if attempt = retries - 1
                   then (Inl (Exc Exception [JStr (''API request failed: '' @ msg
                           @ ''. Failed attempts: '' @ py_repr (JList failed))]), w2)
                 else make_request_loop E url params retries (Suc attempt) failed
                        (backoff E attempt w2))))"
  by pat_completeness auto
termination
  by (relation "measure (\<lambda>(E, url, params, retries, attempt, failed_attempts, w). retries - attempt)")
     auto

declare make_request_loop.simps [simp del]

definition make_request ::
  "env \<Rightarrow> string \<Rightarrow> (string \<times> param) list option \<Rightarrow> nat \<Rightarrow> world
     \<Rightarrow> (py_exception + py_dict) \<times> world" where
  "make_request E endpoint params retries w =
     make_request_loop E (base_url E @ endpoint) params retries 0 [] w"

text \<open>
  \<^verbatim>\<open>get_transactions\<close>, as the service calls it: with a string for the merchant and two
  datetimes, which are true whatever they hold; \<^verbatim>\<open>retries\<close> has its default, 3.
\<close>

definition get_transactions ::
  "env \<Rightarrow> string \<Rightarrow> datetime \<Rightarrow> datetime \<Rightarrow> nat \<Rightarrow> world \<Rightarrow> (py_exception + py_dict) \<times> world" where
  "get_transactions E merchant_id start_date end_date page w =
     make_request E ''/transactions/''
       (Some ([(''page'', PInt (int page))]
          @ (if merchant_id \<noteq> [] then [(''merchant'', PStr merchant_id)] else [])
          @ [(''created_at__gte'', PIso start_date)]
          @ [(''created_at__lte'', PIso end_date)])) 3 w"

definition get_merchant :: "env \<Rightarrow> string \<Rightarrow> world \<Rightarrow> (py_exception + py_dict) \<times> world" where
  "get_merchant E merchant_id w = make_request E (''/merchants/'' @ merchant_id @ ''/'') None 3 w"

section \<open>Decimal numbers\<close>

text \<open>
  The values of \<^verbatim>\<open>decimal.Decimal\<close>: a finite number is a sign (\<open>True\<close> for minus), a
  coefficient and an exponent, and stands for \<open>\<plusminus> coefficient * 10 ^ exponent\<close>; besides
  there are the infinities and the quiet and signaling NaNs with their payload. The
  arithmetic is that of the default context, which the program never changes: 28
  significant digits, rounding half to even, exponents from -999999 to 999999, and the
  signals \<^verbatim>\<open>InvalidOperation\<close> and \<^verbatim>\<open>Overflow\<close> raised as exceptions. The classes an
  exception of the library lists in its \<^verbatim>\<open>args\<close> are written as text.
\<close>

datatype decimal =
    Fin bool nat int
  | Inf bool
  | NaN bool bool nat

definition prec :: nat where "prec = 28"
definition Emax :: int where "Emax = 999999"
definition Emin :: int where "Emin = - 999999"
definition Etiny :: int where "Etiny = Emin - int prec + 1"
definition Etop :: int where "Etop = Emax - int prec + 1"

definition conversion_syntax :: py_exception where
  "conversion_syntax = Exc InvalidOperation [JStr ''[<class 'decimal.ConversionSyntax'>]'']"

definition invalid_operation :: py_exception where
  "invalid_operation = Exc InvalidOperation [JStr ''[<class 'decimal.InvalidOperation'>]'']"

definition overflow :: py_exception where
  "overflow = Exc Overflow [JStr ''[<class 'decimal.Overflow'>]'']"

subsection \<open>\<^verbatim>\<open>Decimal(text)\<close>\<close>

definition is_digit :: "char \<Rightarrow> bool" where
  "is_digit c \<longleftrightarrow> c \<in> set ''0123456789''"

definition is_space :: "char \<Rightarrow> bool" where
  "is_space c \<longleftrightarrow> (of_char c :: nat) \<in> {9, 10, 11, 12, 13, 28, 29, 30, 31, 32, 133, 160}"

definition strip :: "string \<Rightarrow> string" where
  "strip s = rev (dropWhile is_space (rev (dropWhile is_space s)))"

definition lower :: "char \<Rightarrow> char" where
  "lower c = (if 65 \<le> (of_char c :: nat) \<and> (of_char c :: nat) \<le> 90
              then char_of (of_char c + 32 :: nat) else c)"

definition digit_value :: "char \<Rightarrow> nat" where
  "digit_value c = of_char c - 48"

definition int_of_digits :: "string \<Rightarrow> nat" where
  "int_of_digits ds = foldl (\<lambda>n c. 10 * n + digit_value c) 0 ds"

text \<open>The exponent part after the letter E: an optional sign and at least one digit.\<close>

definition parse_exponent :: "string \<Rightarrow> int option" where
  "parse_exponent t =
     (let neg = (take 1 t = ''-'');
          ds = (if take 1 t = ''-'' \<or> take 1 t = ''+'' then drop 1 t else t)
      in if ds \<noteq> [] \<and> list_all is_digit ds
           then Some (if neg then - int (int_of_digits ds) else int (int_of_digits ds))
         else None)"

text \<open>
  The text is stripped of surrounding white space and of every underscore. After an
  optional sign it is a number (digits with an optional point and an optional exponent,
  at least one digit before or after the point), an infinity or a NaN, in any case of
  the letters; anything else raises \<^verbatim>\<open>InvalidOperation\<close>.
\<close>

definition Decimal :: "string \<Rightarrow> py_exception + decimal" where
  "Decimal text =
     (let s = filter (\<lambda>c. c \<noteq> CHR ''_'') (strip text);
          neg = (take 1 s = ''-'');
          body = (if take 1 s = ''-'' \<or> take 1 s = ''+'' then drop 1 s else s);
          intpart = takeWhile is_digit body;
          r1 = dropWhile is_digit body;
          fracpart = (if take 1 r1 = ''.'' then takeWhile is_digit (drop 1 r1) else []);
          r2 = (if take 1 r1 = ''.'' then dropWhile is_digit (drop 1 r1) else r1);
          coeff = int_of_digits (intpart @ fracpart);
          l = map lower body;
          nan = (if take 1 l = ''s'' then drop 1 l else l)
      in if intpart \<noteq> [] \<or> fracpart \<noteq> [] then
           (if r2 = [] then Inr (Fin neg coeff (- int (length fracpart)))
            else if lower (hd r2) = CHR ''e'' then
              (case parse_exponent (tl r2) of
                 None \<Rightarrow> Inl conversion_syntax
               | Some e \<Rightarrow> Inr (Fin neg coeff (e - int (length fracpart))))
            else Inl conversion_syntax)
         else if l = ''inf'' \<or> l = ''infinity'' then Inr (Inf neg)
         else if take 3 nan = ''nan'' \<and> list_all is_digit (drop 3 nan)
           then Inr (NaN neg (take 1 l = ''s'') (int_of_digits (drop 3 nan)))
         else Inl conversion_syntax)"

subsection \<open>Rounding to the context\<close>

definition ndigits :: "nat \<Rightarrow> nat" where
  "ndigits n = length (str_nat n)"

text \<open>
  \<^verbatim>\<open>Decimal._fix\<close>: a coefficient of more than 28 digits, or an exponent below \<open>Etiny\<close>,
  loses its last \<open>k\<close> digits, rounded half to even; a result beyond \<open>Emax\<close> raises
  \<^verbatim>\<open>Overflow\<close>; a NaN keeps the last 28 digits of its payload.
\<close>

definition dec_fix :: "decimal \<Rightarrow> py_exception + decimal" where
  "dec_fix d =
     (case d of
        NaN s signaling payload \<Rightarrow> Inr (NaN s signaling (payload mod 10 ^ prec))
      | Inf s \<Rightarrow> Inr (Inf s)
      | Fin s c e \<Rightarrow>
          if c = 0 then Inr (Fin s 0 (min (max e Etiny) Emax))
          else if int (ndigits c) + e - int prec > Etop then Inl overflow
          else
            (let exp_min = max (int (ndigits c) + e - int prec) Etiny
             in if e < exp_min then
                  (let k = nat (exp_min - e);
                       q = c div 10 ^ k;
                       r = c mod 10 ^ k;
                       half = 5 * 10 ^ (k - 1);
                       rounded = (if half < r \<or> (r = half \<and> odd q) then q + 1 else q)
                   in if 10 ^ prec \<le> rounded
                        then (if exp_min + 1 > Etop then Inl overflow
                              else Inr (Fin s (rounded div 10) (exp_min + 1)))
                      else Inr (Fin s rounded exp_min))
                else Inr (Fin s c e)))"

subsection \<open>Addition and subtraction\<close>

definition signed :: "bool \<Rightarrow> nat \<Rightarrow> int" where
  "signed s c = (if s then - int c else int c)"

text \<open>
  \<^verbatim>\<open>a + b\<close>. A signaling NaN raises, a quiet NaN is the result (the first one); opposite
  infinities raise. The sum of two finite numbers is computed exactly, at the smaller of
  the two exponents, and then rounded to the context; a zero sum is negative only when
  both operands are negative zeros.
\<close>

definition is_snan :: "decimal \<Rightarrow> bool" where
  "is_snan d = (case d of NaN s signaling p \<Rightarrow> signaling | _ \<Rightarrow> False)"

definition is_nan :: "decimal \<Rightarrow> bool" where
  "is_nan d = (case d of NaN s signaling p \<Rightarrow> True | _ \<Rightarrow> False)"

definition check_nans :: "decimal \<Rightarrow> decimal \<Rightarrow> (py_exception + decimal) option" where
  "check_nans a b =
     (if is_snan a \<or> is_snan b then Some (Inl invalid_operation)
      else if is_nan a then Some (dec_fix a)
      else if is_nan b then Some (dec_fix b)
      else None)"

definition dec_add :: "decimal \<Rightarrow> decimal \<Rightarrow> py_exception + decimal" where
  "dec_add a b =
     (case check_nans a b of
        Some ans \<Rightarrow> ans
      | None \<Rightarrow>
         (case (a, b) of
            (Inf s, Inf t) \<Rightarrow> if s \<noteq> t then Inl invalid_operation else Inr (Inf s)
          | (Inf s, _) \<Rightarrow> Inr (Inf s)
          | (_, Inf t) \<Rightarrow> Inr (Inf t)
          | (Fin s1 c1 e1, Fin s2 c2 e2) \<Rightarrow>
              (let e = min e1 e2;
                   total = signed s1 c1 * 10 ^ nat (e1 - e) + signed s2 c2 * 10 ^ nat (e2 - e)
               in if total = 0
                    then dec_fix (Fin (c1 = 0 \<and> c2 = 0 \<and> s1 \<and> s2) 0 e)
                  else dec_fix (Fin (total < 0) (nat \<bar>total\<bar>) e))
          | _ \<Rightarrow> Inl invalid_operation))"

definition copy_negate :: "decimal \<Rightarrow> decimal" where
  "copy_negate d =
     (case d of Fin s c e \<Rightarrow> Fin (\<not> s) c e | Inf s \<Rightarrow> Inf (\<not> s)
              | NaN s signaling p \<Rightarrow> NaN (\<not> s) signaling p)"

definition dec_sub :: "decimal \<Rightarrow> decimal \<Rightarrow> py_exception + decimal" where
  "dec_sub a b =
     (case check_nans a b of
        Some ans \<Rightarrow> ans
      | None \<Rightarrow> dec_add a (copy_negate b))"

subsection \<open>\<^verbatim>\<open>str\<close> of a decimal\<close>

definition dec_str :: "decimal \<Rightarrow> string" where
  "dec_str d =
     (case d of
        Inf s \<Rightarrow> (if s then ''-'' else []) @ ''Infinity''
      | NaN s signaling p \<Rightarrow>
          (if s then ''-'' else []) @ (if signaling then ''sNaN'' else ''NaN'')
            @ (if p = 0 then [] else str_nat p)
      | Fin s c e \<Rightarrow>
          (let ds = str_nat c;
               leftdigits = e + int (length ds);
               dotplace = (if e \<le> 0 \<and> - 6 < leftdigits then leftdigits else 1);
               intpart = (if dotplace \<le> 0 then ''0''
                          else if int (length ds) \<le> dotplace
                            then ds @ replicate (nat (dotplace - int (length ds))) CHR ''0''
                          else take (nat dotplace) ds);
               fracpart = (if dotplace \<le> 0
                             then ''.'' @ replicate (nat (- dotplace)) CHR ''0'' @ ds
                           else if int (length ds) \<le> dotplace then []
                           else ''.'' @ drop (nat dotplace) ds);
               exp = (if leftdigits = dotplace then []
                      else ''E'' @ (if 0 \<le> leftdigits - dotplace then ''+'' else ''-'')
                             @ str_nat (nat \<bar>leftdigits - dotplace\<bar>))
           in (if s then ''-'' else []) @ intpart @ fracpart @ exp))"

subsection \<open>Numbers: the integer 0 that \<^verbatim>\<open>sum\<close> starts from, or a decimal\<close>

datatype number = PyInt int | PyDec decimal

definition to_decimal :: "number \<Rightarrow> decimal" where
  "to_decimal n = (case n of PyInt i \<Rightarrow> Fin (i < 0) (nat \<bar>i\<bar>) 0 | PyDec d \<Rightarrow> d)"

definition lift_dec :: "py_exception + decimal \<Rightarrow> py_exception + number" where
  "lift_dec r = (case r of Inl e \<Rightarrow> Inl e | Inr d \<Rightarrow> Inr (PyDec d))"

definition num_add :: "number \<Rightarrow> number \<Rightarrow> py_exception + number" where
  "num_add a b =
     (case (a, b) of
        (PyInt i, PyInt j) \<Rightarrow> Inr (PyInt (i + j))
      | _ \<Rightarrow> lift_dec (dec_add (to_decimal a) (to_decimal b)))"

definition num_sub :: "number \<Rightarrow> number \<Rightarrow> py_exception + number" where
  "num_sub a b =
     (case (a, b) of
        (PyInt i, PyInt j) \<Rightarrow> Inr (PyInt (i - j))
      | _ \<Rightarrow> lift_dec (dec_sub (to_decimal a) (to_decimal b)))"

definition num_str :: "number \<Rightarrow> string" where
  "num_str n = (case n of PyInt i \<Rightarrow> str_int i | PyDec d \<Rightarrow> dec_str d)"

text \<open>\<^verbatim>\<open>sum(ds)\<close>, entered with the running total.\<close>

fun sum_from :: "number \<Rightarrow> decimal list \<Rightarrow> py_exception + number" where
  "sum_from acc [] = Inr acc"
| "sum_from acc (d # ds) =
     (case num_add acc (PyDec d) of Inl e \<Rightarrow> Inl e | Inr acc' \<Rightarrow> sum_from acc' ds)"

definition py_sum :: "decimal list \<Rightarrow> py_exception + number" where
  "py_sum ds = sum_from (PyInt 0) ds"

section \<open>Operations on JSON values\<close>

text \<open>
  What the service does to the values it received, with the exception the interpreter
  raises when the value has another type than the code expects.
\<close>

text \<open>\<^verbatim>\<open>d.get(key, default)\<close> on a dictionary.\<close>

definition dict_get :: "py_dict \<Rightarrow> string \<Rightarrow> json \<Rightarrow> json" where
  "dict_get d key dflt = (case map_of d key of None \<Rightarrow> dflt | Some v \<Rightarrow> v)"

definition quoted :: "string \<Rightarrow> string" where
  "quoted s = [CHR 0x27] @ s @ [CHR 0x27]"

text \<open>\<^verbatim>\<open>v.get(key, default)\<close> on any value.\<close>

definition py_get :: "json \<Rightarrow> string \<Rightarrow> json \<Rightarrow> py_exception + json" where
  "py_get v key dflt =
     (case v of
        JObj d \<Rightarrow> Inr (dict_get d key dflt)
      | _ \<Rightarrow> Inl (Exc AttributeError
                 [JStr (quoted (type_name v) @ '' object has no attribute '' @ quoted ''get'')]))"

text \<open>\<^verbatim>\<open>v[key]\<close> with a string for the key.\<close>

definition py_getitem :: "json \<Rightarrow> string \<Rightarrow> py_exception + json" where
  "py_getitem v key =
     (case v of
        JObj d \<Rightarrow> (case map_of d key of None \<Rightarrow> Inl (Exc KeyError [JStr key]) | Some x \<Rightarrow> Inr x)
      | JList xs \<Rightarrow> Inl (Exc TypeError [JStr ''list indices must be integers or slices, not str''])
      | JStr s \<Rightarrow> Inl (Exc TypeError [JStr (''string indices must be integers, not '' @ quoted ''str'')])
      | _ \<Rightarrow> Inl (Exc TypeError [JStr (quoted (type_name v) @ '' object is not subscriptable'')]))"

text \<open>
  The elements \<^verbatim>\<open>xs.extend(v)\<close> appends: those of a list, the characters of a string,
  the keys of a dictionary.
\<close>

definition py_iter :: "json \<Rightarrow> py_exception + json list" where
  "py_iter v =
     (case v of
        JList xs \<Rightarrow> Inr xs
      | JStr s \<Rightarrow> Inr (map (\<lambda>c. JStr [c]) s)
      | JObj d \<Rightarrow> Inr (map (\<lambda>kv. JStr (fst kv)) d)
      | _ \<Rightarrow> Inl (Exc TypeError [JStr (quoted (type_name v) @ '' object is not iterable'')]))"

text \<open>
  The elements appended by
  \<^verbatim>\<open>if "_request_metadata" in r: api_errors.extend(r["_request_metadata"]["failed_attempts"])\<close>.
\<close>

definition metadata_failures :: "py_dict \<Rightarrow> py_exception + json list" where
  "metadata_failures response =
     (case map_of response ''_request_metadata'' of
        None \<Rightarrow> Inr []
      | Some meta \<Rightarrow>
          (case py_getitem meta ''failed_attempts'' of
             Inl e \<Rightarrow> Inl e
           | Inr failed \<Rightarrow> py_iter failed))"

section \<open>The settlement service\<close>

subsection \<open>\<^verbatim>\<open>_get_settlement_period\<close>\<close>

definition get_settlement_period ::
  "env \<Rightarrow> datetime \<Rightarrow> string \<Rightarrow> world \<Rightarrow> (py_exception + datetime \<times> datetime) \<times> world" where
  "get_settlement_period E settlement_date timezone_str w =
     (case (case ZoneInfo (zones E) timezone_str of
              Inr tz \<Rightarrow> (Inr tz, w)
            | Inl e \<Rightarrow> (ZoneInfo (zones E) ''UTC'', emit (Log WARNING 156) w)) of
        (Inl e, w1) \<Rightarrow> (Inl e, w1)
      | (Inr tz, w1) \<Rightarrow>
          (let settlement_date_tz = settlement_date\<lparr>tzinfo := Some tz\<rparr>;
               settlement_end = end_of_day settlement_date_tz
           in case minus_one_day settlement_date_tz of
                Inl e \<Rightarrow> (Inl e, w1)
              | Inr previous_day \<Rightarrow> (Inr (end_of_day previous_day, settlement_end), w1)))"

subsection \<open>\<^verbatim>\<open>_fetch_all_transactions\<close>\<close>

text \<open>
  The \<^verbatim>\<open>except Exception\<close> clause of the pagination loop: it logs, appends one record for
  the page to the errors collected so far, and leaves the loop.
\<close>

definition page_error :: "nat \<Rightarrow> py_exception \<Rightarrow> json" where
  "page_error page e =
     (let error_msg = exc_str e
      in if contains error_msg ''Failed attempts:''
           then JObj [(''page'', JInt (int page)), (''error'', JStr ''Failed to fetch page''),
                      (''details'', JStr error_msg)]
         else JObj [(''page'', JInt (int page)), (''error'', JStr ''Unknown error''),
                    (''details'', JStr error_msg)])"

definition fetch_failed ::
  "json list \<Rightarrow> json list \<Rightarrow> nat \<Rightarrow> py_exception \<Rightarrow> world \<Rightarrow> (json list \<times> json list) \<times> world" where
  "fetch_failed all_transactions api_errors page e w =
     ((all_transactions, api_errors @ [page_error page e]), emit (Log ERROR 206) w)"

text \<open>
  The loop \<^verbatim>\<open>while True\<close>, entered at \<open>page\<close> with the transactions and the errors
  collected so far. Nothing bounds the number of pages the upstream may announce, so the
  loop runs on fuel, one unit per page; \<open>None\<close> means the fuel did not reach the last page.
\<close>

fun fetch_loop ::
  "nat \<Rightarrow> env \<Rightarrow> string \<Rightarrow> datetime \<Rightarrow> datetime \<Rightarrow> nat \<Rightarrow> json list \<Rightarrow> json list \<Rightarrow> world
     \<Rightarrow> ((json list \<times> json list) \<times> world) option" where
  "fetch_loop 0 E merchant_id start_date end_date page all_transactions api_errors w = None"
| "fetch_loop (Suc fuel) E merchant_id start_date end_date page all_transactions api_errors w =
     (case get_transactions E merchant_id start_date end_date page w of
        (Inl e, w1) \<Rightarrow> Some (fetch_failed all_transactions api_errors page e w1)
      | (Inr response, w1) \<Rightarrow>
          (case metadata_failures response of
             Inl e \<Rightarrow> Some (fetch_failed all_transactions api_errors page e w1)
           | Inr failed \<Rightarrow>
               (case py_iter (dict_get response ''results'' (JList [])) of
                  Inl e \<Rightarrow> Some (fetch_failed all_transactions (api_errors @ failed) page e w1)
                | Inr transactions \<Rightarrow>
                    if \<not> truthy (dict_get response ''next'' JNull)
                      then Some ((all_transactions @ transactions, api_errors @ failed), w1)
                    else fetch_loop fuel E merchant_id start_date end_date (Suc page)
                           (all_transactions @ transactions) (api_errors @ failed) w1)))"

definition fetch_all_transactions ::
  "nat \<Rightarrow> env \<Rightarrow> string \<Rightarrow> datetime \<Rightarrow> datetime \<Rightarrow> world
     \<Rightarrow> ((json list \<times> json list) \<times> world) option" where
  "fetch_all_transactions fuel E merchant_id start_date end_date w =
     fetch_loop fuel E merchant_id start_date end_date 1 [] [] w"

subsection \<open>The reduce step of \<^verbatim>\<open>calculate_settlement\<close>\<close>

text \<open>
  \<^verbatim>\<open>[Decimal(str(t.get("amount", "0"))) for t in transactions if t.get("type") in types]\<close>:
  the transactions are visited in order, and the first one that is no dictionary, or
  whose amount is no decimal, ends the evaluation with its exception.
\<close>

fun amounts_of :: "string list \<Rightarrow> json list \<Rightarrow> py_exception + decimal list" where
  "amounts_of types [] = Inr []"
| "amounts_of types (transaction # transactions) =
     (case py_get transaction ''type'' JNull of
        Inl e \<Rightarrow> Inl e
      | Inr ty \<Rightarrow>
          if ty \<in> JStr ` set types then
            (case py_get transaction ''amount'' (JStr ''0'') of
               Inl e \<Rightarrow> Inl e
             | Inr amount \<Rightarrow>
                 (case Decimal (py_str amount) of
                    Inl e \<Rightarrow> Inl e
                  | Inr d \<Rightarrow>
                      (case amounts_of types transactions of
                         Inl e \<Rightarrow> Inl e
                       | Inr ds \<Rightarrow> Inr (d # ds))))
          else amounts_of types transactions)"

definition total_of :: "string list \<Rightarrow> json list \<Rightarrow> py_exception + number" where
  "total_of types transactions =
     (case amounts_of types transactions of Inl e \<Rightarrow> Inl e | Inr ds \<Rightarrow> py_sum ds)"

record summary =
  total_purchases :: string
  total_refunds :: string
  transaction_count :: nat
  net_settlement :: string

record error_block =
  total_errors :: nat
  error_details :: "json list"

text \<open>
  The report. The two instants of the period and the settlement date stand for their
  \<^verbatim>\<open>isoformat()\<close> texts; \<open>api_errors\<close> is \<open>None\<close> when the dictionary has no such key.
\<close>

record report =
  merchant_id :: string
  merchant_name :: json
  settlement_date :: "int \<times> int \<times> int"
  settlement_period :: "datetime \<times> datetime"
  settlement_amount :: string
  summary :: summary
  transactions :: "json list"
  api_errors :: "error_block option"

text \<open>
  Lines 266 to 309: from the merchant, the period, the transactions and the errors
  collected to the report, or to the exception of the first amount that fails.
\<close>

definition build_report ::
  "string \<Rightarrow> py_dict \<Rightarrow> datetime \<Rightarrow> datetime \<times> datetime \<Rightarrow> json list \<Rightarrow> json list
     \<Rightarrow> py_exception + report" where
  "build_report mid merchant date period txs errors =
     (case total_of [''SALE'', ''PURCHASE''] txs of
        Inl e \<Rightarrow> Inl e
      | Inr purchase_total \<Rightarrow>
          (case total_of [''REFUND''] txs of
             Inl e \<Rightarrow> Inl e
           | Inr refund_total \<Rightarrow>
               (case num_sub purchase_total refund_total of
                  Inl e \<Rightarrow> Inl e
                | Inr net \<Rightarrow>
                    Inr \<lparr>merchant_id = mid,
                         merchant_name = dict_get merchant ''name'' JNull,
                         settlement_date = (year date, month date, day date),
                         settlement_period = period,
                         settlement_amount = num_str net,
                         summary = \<lparr>total_purchases = num_str purchase_total,
                                     total_refunds = num_str refund_total,
                                     transaction_count = length txs,
                                     net_settlement = num_str net\<rparr>,
                         transactions = txs,
                         api_errors = (if errors \<noteq> []
                                         then Some \<lparr>total_errors = length errors,
                                                    error_details = errors\<rparr>
                                       else None)\<rparr>)))"

subsection \<open>\<^verbatim>\<open>calculate_settlement\<close>\<close>

text \<open>The exception of line 254, which the specification calls \<^verbatim>\<open>MerchantNotFound\<close>.\<close>

definition merchant_not_found :: "string \<Rightarrow> py_exception" where
  "merchant_not_found mid = Exc ValueError [JStr (''Merchant '' @ mid @ '' not found or API error'')]"

text \<open>The outer \<^verbatim>\<open>except Exception\<close> clause: it logs and raises the exception again.\<close>

definition reraise :: "py_exception \<Rightarrow> world \<Rightarrow> (py_exception + report) \<times> world" where
  "reraise e w = (Inl e, emit (Log ERROR 312) w)"

text \<open>
  The merchant lookup of lines 236 to 254: the body and the failure records found in
  its metadata, or, whatever was raised on the way, the \<^verbatim>\<open>ValueError\<close> of line 254.
\<close>

definition lookup_merchant ::
  "env \<Rightarrow> string \<Rightarrow> world \<Rightarrow> (py_exception + py_dict \<times> json list) \<times> world" where
  "lookup_merchant E mid w =
     (case get_merchant E mid w of
        (Inl e, w1) \<Rightarrow> (Inl (merchant_not_found mid), emit (Log ERROR 243) w1)
      | (Inr merchant, w1) \<Rightarrow>
          (case metadata_failures merchant of
             Inl e \<Rightarrow> (Inl (merchant_not_found mid), emit (Log ERROR 243) w1)
           | Inr failed \<Rightarrow> (Inr (merchant, failed), w1)))"

definition calculate_settlement ::
  "nat \<Rightarrow> env \<Rightarrow> string \<Rightarrow> datetime \<Rightarrow> string \<Rightarrow> world
     \<Rightarrow> ((py_exception + report) \<times> world) option" where
  "calculate_settlement fuel E mid date timezone_str w =
     (case lookup_merchant E mid w of
        (Inl e, w1) \<Rightarrow> Some (reraise e w1)
      | (Inr (merchant, merchant_errors), w1) \<Rightarrow>
          (case get_settlement_period E date timezone_str w1 of
             (Inl e, w2) \<Rightarrow> Some (reraise e w2)
           | (Inr (period_start, period_end), w2) \<Rightarrow>
               (case fetch_all_transactions fuel E mid period_start period_end w2 of
                  None \<Rightarrow> None
                | Some ((txs, transaction_errors), w3) \<Rightarrow>
                    (case build_report mid merchant date (period_start, period_end) txs
                            (merchant_errors @ transaction_errors) of
                       Inl e \<Rightarrow> Some (reraise e w3)
                     | Inr settlement_data \<Rightarrow> Some (Inr settlement_data, w3)))))"

section \<open>Describing a logical call\<close>

text \<open>
  The vocabulary in which the theorems speak about one call of \<^verbatim>\<open>_make_request\<close>:
  whether an attempt ended well, the record and the log line a failed attempt leaves,
  the text the exception of the last attempt starts with, the records of \<open>k\<close>
  attempts that failed in a row, how many attempts fail before the first good one, and
  the events of \<open>k\<close> failed attempts each followed by its pause.
\<close>

definition succeeded :: "outcome \<Rightarrow> bool" where
  "succeeded out = (case out of Response status_code body \<Rightarrow> status_code = 200 | _ \<Rightarrow> False)"

definition failure_record :: "nat \<Rightarrow> outcome \<Rightarrow> json" where
  "failure_record attempt out =
     (case out of
        Response status_code body \<Rightarrow> http_error_record attempt status_code
      | Timeout \<Rightarrow> timeout_record attempt
      | RequestException msg \<Rightarrow> request_exception_record attempt msg)"

definition failure_line :: "outcome \<Rightarrow> nat" where
  "failure_line out =
     (case out of Response status_code body \<Rightarrow> 60 | Timeout \<Rightarrow> 76 | RequestException msg \<Rightarrow> 91)"

definition exhausted_message :: "outcome \<Rightarrow> string" where
  "exhausted_message out =
     (case out of
        Response status_code body \<Rightarrow> ''API request failed with status '' @ str_int status_code @ ''. ''
      | Timeout \<Rightarrow> ''API request timed out after multiple attempts. ''
      | RequestException msg \<Rightarrow> ''API request failed: '' @ msg @ ''. '')"

fun failure_records :: "env \<Rightarrow> nat \<Rightarrow> nat \<Rightarrow> nat \<Rightarrow> json list" where
  "failure_records E attempt c 0 = []"
| "failure_records E attempt c (Suc k) =
     failure_record attempt (transport E c) # failure_records E (Suc attempt) (Suc c) k"

fun leading_failures :: "env \<Rightarrow> nat \<Rightarrow> nat \<Rightarrow> nat" where
  "leading_failures E c 0 = 0"
| "leading_failures E c (Suc n) =
     (if succeeded (transport E c) then 0 else Suc (leading_failures E (Suc c) n))"

fun backoff_events ::
  "env \<Rightarrow> string \<Rightarrow> (string \<times> param) list option \<Rightarrow> nat \<Rightarrow> nat \<Rightarrow> nat \<Rightarrow> nat \<Rightarrow> event list" where
  "backoff_events E url params attempt c d 0 = []"
| "backoff_events E url params attempt c d (Suc k) =
     [HttpGet url params, Log WARNING (failure_line (transport E c)),
      Sleep (2 ^ attempt + jitter E d)]
       @ backoff_events E url params (Suc attempt) (Suc c) (Suc d) k"

definition is_sleep :: "event \<Rightarrow> bool" where
  "is_sleep ev = (case ev of Sleep seconds \<Rightarrow> True | _ \<Rightarrow> False)"


text \<open>
  The error the specification describes for a call whose attempts all failed: an
  exception of a class of its own (not the plain \<^verbatim>\<open>Exception\<close>) that carries the list
  of failure records as a value among its arguments.
\<close>

definition spec_request_exhausted :: "py_exception \<Rightarrow> json list \<Rightarrow> bool" where
  "spec_request_exhausted e failures \<longleftrightarrow>
     exc_class_of e \<noteq> Exception \<and> JList failures \<in> set (exc_args e)"

section \<open>Describing the reduce step\<close>

text \<open>
  The vocabulary in which the theorems speak about the sums: whether a transaction
  counts for a list of types, the text its amount is converted from, the rational number
  a finite decimal stands for, and the integer it is in units of \<open>10 ^ m\<close>.
\<close>

definition has_type :: "string list \<Rightarrow> json \<Rightarrow> bool" where
  "has_type types transaction =
     (case transaction of JObj d \<Rightarrow> dict_get d ''type'' JNull \<in> JStr ` set types | _ \<Rightarrow> False)"

definition amount_text :: "json \<Rightarrow> string" where
  "amount_text transaction =
     (case transaction of JObj d \<Rightarrow> py_str (dict_get d ''amount'' (JStr ''0'')) | _ \<Rightarrow> [])"

definition dec_value :: "decimal \<Rightarrow> rat" where
  "dec_value d = (case d of Fin s c e \<Rightarrow> of_int (signed s c) * 10 powi e | _ \<Rightarrow> 0)"

definition num_value :: "number \<Rightarrow> rat" where
  "num_value n = dec_value (to_decimal n)"

definition scaled :: "int \<Rightarrow> decimal \<Rightarrow> int" where
  "scaled m d = (case d of Fin s c e \<Rightarrow> signed s c * 10 ^ nat (e - m) | _ \<Rightarrow> 0)"

definition exponent_from :: "int \<Rightarrow> decimal \<Rightarrow> bool" where
  "exponent_from m d = (case d of Fin s c e \<Rightarrow> m \<le> e | _ \<Rightarrow> False)"

text \<open>
  The amounts \<open>ds\<close> are summed without rounding: all are finite, none has an exponent
  below \<open>m\<close>, which is itself no smaller than the least exponent of the context and no
  greater than 0, and their absolute values, written in units of \<open>10 ^ m\<close>, add up to a
  number of at most 28 digits.
\<close>

definition fits :: "int \<Rightarrow> decimal list \<Rightarrow> bool" where
  "fits m ds \<longleftrightarrow> Etiny \<le> m \<and> m \<le> 0 \<and> list_all (exponent_from m) ds
     \<and> (\<Sum>d\<leftarrow>ds. \<bar>scaled m d\<bar>) < 10 ^ 28"

section \<open>Example runs\<close>

text \<open>
  Concrete surroundings on which the theorems below are exercised: a zone database that
  knows UTC only, a fresh world, a settlement date, and upstreams of several tempers.
\<close>

definition utc_only :: tzdb where
  "utc_only key = (if key = ''UTC'' then Some (\<lambda>d. 0) else None)"

definition world0 :: world where
  "world0 = \<lparr>calls = 0, draws = 0, trace = []\<rparr>"

definition march_1 :: datetime where
  "march_1 = \<lparr>year = 2024, month = 3, day = 1, hour = 0, minute = 0, second = 0,
               microsecond = 0, tzinfo = None\<rparr>"

definition tx :: "string \<Rightarrow> string \<Rightarrow> json" where
  "tx ty amount = JObj [(''type'', JStr ty), (''amount'', JStr amount)]"

text \<open>The merchant is found at once and has no transaction in the period.\<close>

definition quiet_env :: env where
  "quiet_env =
     \<lparr>base_url = ''https://acme'',
      transport = (\<lambda>n. if n = 0 then Response 200 [(''name'', JStr ''Acme'')]
                       else Response 200 [(''results'', JList []), (''next'', JNull)]),
      jitter = (\<lambda>n. 1 / 2),
      zones = utc_only\<rparr>"

text \<open>
  The merchant lookup times out, then meets a 503, then succeeds; the only page of
  transactions arrives at once.
\<close>

definition recovering_env :: env where
  "recovering_env =
     \<lparr>base_url = ''https://acme'',
      transport = (\<lambda>n. if n = 0 then Timeout
                       else if n = 1 then Response 503 []
                       else if n = 2 then Response 200 [(''name'', JStr ''Acme'')]
                       else Response 200
                              [(''results'', JList [tx ''SALE'' ''10.10'', tx ''REFUND'' ''0.05'',
                                                    tx ''CHARGEBACK'' ''3.00'']),
                               (''next'', JNull)]),
      jitter = (\<lambda>n. 1 / 2),
      zones = utc_only\<rparr>"

text \<open>
  The merchant is found at once; page 1 arrives and announces page 2; the three attempts
  at page 2 fail; page 3 would be served if it were asked for.
\<close>

definition broken_page_env :: env where
  "broken_page_env =
     \<lparr>base_url = ''https://acme'',
      transport = (\<lambda>n. if n = 0 then Response 200 [(''name'', JStr ''Acme'')]
                       else if n = 1 then Response 200
                              [(''results'', JList [tx ''SALE'' ''20.00'', tx ''REFUND'' ''5.50'']),
                               (''next'', JStr ''https://acme/transactions/?page=2'')]
                       else if n = 2 then Response 500 []
                       else if n = 3 then Timeout
                       else if n = 4 then RequestException ''connection reset''
                       else Response 200
                              [(''results'', JList [tx ''SALE'' ''1.00'']), (''next'', JNull)]),
      jitter = (\<lambda>n. 1 / 4),
      zones = utc_only\<rparr>"

text \<open>Every request times out.\<close>

definition dead_env :: env where
  "dead_env =
     \<lparr>base_url = ''https://acme'', transport = (\<lambda>n. Timeout), jitter = (\<lambda>n. 0),
      zones = utc_only\<rparr>"

text \<open>The merchant is found at once, and its only transaction has an amount that is no number.\<close>

definition bad_amount_env :: env where
  "bad_amount_env =
     \<lparr>base_url = ''https://acme'',
      transport = (\<lambda>n. if n = 0 then Response 200 [(''name'', JStr ''Acme'')]
                       else Response 200
                              [(''results'', JList [tx ''SALE'' ''abc'']), (''next'', JNull)]),
      jitter = (\<lambda>n. 0),
      zones = utc_only\<rparr>"

text \<open>
  A zone database with UTC and with the offsets New York had in 2024: four hours behind
  UTC from March 10 to November 2, five hours otherwise (the change is at 2 o'clock at
  night, far from the instants of a settlement period).
\<close>

definition zones_2024 :: tzdb where
  "zones_2024 key =
     (if key = ''UTC'' then Some (\<lambda>d. 0)
      else if key = ''America/New_York''
        then Some (\<lambda>d. if (month d = 3 \<and> 10 \<le> day d) \<or> (3 < month d \<and> month d < 11)
                             \<or> (month d = 11 \<and> day d < 3)
                          then - 4 * 3600000000 else - 5 * 3600000000)
      else None)"

definition dst_env :: env where
  "dst_env = quiet_env\<lparr>zones := zones_2024\<rparr>"

definition march_10 :: datetime where
  "march_10 = march_1\<lparr>day := 10\<rparr>"

text \<open>The first day of the calendar.\<close>

definition first_day :: datetime where
  "first_day = march_1\<lparr>year := 1, month := 1, day := 1\<rparr>"

section \<open>Running the model\<close>

text \<open>The equations that evaluate the model on a concrete run, for the simplifier.\<close>

lemmas text_eval =
  str_nat.simps str_int_def digit_char_def repr_str_def escape_char_def printable_def quoted_def

lemmas decimal_eval =
  Decimal_def strip_def is_space_def is_digit_def int_of_digits_def digit_value_def lower_def
  parse_exponent_def conversion_syntax_def invalid_operation_def overflow_def
  py_sum_def num_add_def num_sub_def to_decimal_def dec_add_def dec_sub_def copy_negate_def
  check_nans_def is_snan_def is_nan_def signed_def dec_fix_def ndigits_def lift_dec_def
  prec_def Etop_def Etiny_def Emax_def Emin_def dec_str_def num_str_def

lemmas json_eval =
  py_get_def dict_get_def py_getitem_def py_iter_def metadata_failures_def total_of_def
  build_report_def

lemmas client_eval =
  make_request_def make_request_loop.simps session_get_def emit_def backoff_def
  get_merchant_def get_transactions_def http_error_record_def timeout_record_def
  request_exception_record_def request_metadata_def succeeded_def failure_record_def
  failure_line_def exhausted_message_def

lemmas service_eval =
  calculate_settlement_def lookup_merchant_def get_settlement_period_def
  fetch_all_transactions_def page_error_def fetch_failed_def reraise_def ZoneInfo_def
  minus_one_day_def end_of_day_def days_in_month_def is_leap_def merchant_not_found_def

lemmas example_eval =
  utc_only_def world0_def march_1_def tx_def quiet_env_def recovering_env_def
  broken_page_env_def dead_env_def bad_amount_env_def zones_2024_def dst_env_def
  march_10_def first_day_def

lemma fetch_loop_numeral:
  "fetch_loop (numeral n) E mid start_date end_date page txs errs w =
     (case get_transactions E mid start_date end_date page w of
        (Inl e, w1) \<Rightarrow> Some (fetch_failed txs errs page e w1)
      | (Inr response, w1) \<Rightarrow>
          (case metadata_failures response of
             Inl e \<Rightarrow> Some (fetch_failed txs errs page e w1)
           | Inr failed \<Rightarrow>
               (case py_iter (dict_get response ''results'' (JList [])) of
                  Inl e \<Rightarrow> Some (fetch_failed txs (errs @ failed) page e w1)
                | Inr page_txs \<Rightarrow>
                    if \<not> truthy (dict_get response ''next'' JNull)
                      then Some ((txs @ page_txs, errs @ failed), w1)
                    else fetch_loop (pred_numeral n) E mid start_date end_date (Suc page)
                           (txs @ page_txs) (errs @ failed) w1)))"
  unfolding numeral_eq_Suc by (rule fetch_loop.simps)

lemma leading_failures_numeral:
  "leading_failures E c (numeral n) =
     (if succeeded (transport E c) then 0 else Suc (leading_failures E (Suc c) (pred_numeral n)))"
  unfolding numeral_eq_Suc by (rule leading_failures.simps)

lemma failure_records_numeral:
  "failure_records E attempt c (numeral n) =
     failure_record attempt (transport E c) # failure_records E (Suc attempt) (Suc c) (pred_numeral n)"
  unfolding numeral_eq_Suc by (rule failure_records.simps)

lemma backoff_events_numeral:
  "backoff_events E url params attempt c d (numeral n) =
     [HttpGet url params, Log WARNING (failure_line (transport E c)),
      Sleep (2 ^ attempt + jitter E d)]
       @ backoff_events E url params (Suc attempt) (Suc c) (Suc d) (pred_numeral n)"
  unfolding numeral_eq_Suc by (rule backoff_events.simps)

lemmas count_eval =
  fetch_loop_numeral leading_failures_numeral failure_records_numeral backoff_events_numeral

section \<open>Report assembly\<close>









section \<open>The retry loop\<close>

lemma loop_step_failed:
  assumes "\<not> succeeded (transport E (calls w))" "Suc attempt < retries"
  shows "make_request_loop E url params retries attempt failed w =
         make_request_loop E url params retries (Suc attempt)
           (failed @ [failure_record attempt (transport E (calls w))])
           (w\<lparr>calls := Suc (calls w), draws := Suc (draws w),
              trace := trace w @ [HttpGet url params, Log WARNING (failure_line (transport E (calls w))),
                                  Sleep (2 ^ attempt + jitter E (draws w))]\<rparr>)"
  using assms
  by (subst make_request_loop.simps)
     (auto simp: session_get_def emit_def backoff_def succeeded_def failure_record_def
        failure_line_def Let_def split: outcome.splits)

lemma loop_step_last:
  assumes "\<not> succeeded (transport E (calls w))" "Suc attempt = retries"
  shows "make_request_loop E url params retries attempt failed w =
         (Inl (Exc Exception [JStr (exhausted_message (transport E (calls w)) @ ''Failed attempts: ''
                 @ py_repr (JList (failed @ [failure_record attempt (transport E (calls w))])))]),
          w\<lparr>calls := Suc (calls w),
            trace := trace w @ [HttpGet url params, Log WARNING (failure_line (transport E (calls w)))]\<rparr>)"
  using assms
  by (subst make_request_loop.simps)
     (auto simp: session_get_def emit_def succeeded_def failure_record_def exhausted_message_def
        failure_line_def Let_def split: outcome.splits)

lemma loop_step_ok:
  assumes "transport E (calls w) = Response 200 body" "attempt < retries"
  shows "make_request_loop E url params retries attempt failed w =
         (Inr (if failed \<noteq> [] then AList.update ''_request_metadata'' (request_metadata failed attempt) body
               else body),
          w\<lparr>calls := Suc (calls w), trace := trace w @ [HttpGet url params]\<rparr>)"
  using assms
  by (subst make_request_loop.simps) (auto simp: session_get_def emit_def)

lemma loop_after_failures:
  assumes "\<forall>i<k. \<not> succeeded (transport E (calls w + i))" "attempt + k < retries"
  shows "make_request_loop E url params retries attempt failed w =
         make_request_loop E url params retries (attempt + k)
           (failed @ failure_records E attempt (calls w) k)
           (w\<lparr>calls := calls w + k, draws := draws w + k,
              trace := trace w @ backoff_events E url params attempt (calls w) (draws w) k\<rparr>)"
  using assms
proof (induction k arbitrary: attempt failed w)
  case 0
  then show ?case by simp
next
  case (Suc k)
  have f0: "\<not> succeeded (transport E (calls w))" using Suc.prems(1) by force
  let ?w = "w\<lparr>calls := Suc (calls w), draws := Suc (draws w),
              trace := trace w @ [HttpGet url params, Log WARNING (failure_line (transport E (calls w))),
                                  Sleep (2 ^ attempt + jitter E (draws w))]\<rparr>"
  have rest: "\<forall>i<k. \<not> succeeded (transport E (calls ?w + i))"
    using Suc.prems(1) by auto
  have "make_request_loop E url params retries attempt failed w =
        make_request_loop E url params retries (Suc attempt)
           (failed @ [failure_record attempt (transport E (calls w))]) ?w"
    using loop_step_failed [OF f0] Suc.prems(2) by simp
  also have "\<dots> = make_request_loop E url params retries (Suc attempt + k)
           ((failed @ [failure_record attempt (transport E (calls w))])
              @ failure_records E (Suc attempt) (calls ?w) k)
           (?w\<lparr>calls := calls ?w + k, draws := draws ?w + k,
              trace := trace ?w @ backoff_events E url params (Suc attempt) (calls ?w) (draws ?w) k\<rparr>)"
    using Suc.IH [OF rest, of "Suc attempt"] Suc.prems(2) by simp
  finally show ?case by simp
qed

lemma make_request_succeeds:
  assumes "\<forall>i<k. \<not> succeeded (transport E (calls w + i))"
    and "transport E (calls w + k) = Response 200 body" and "k < retries"
  shows "make_request E endpoint params retries w =
         (Inr (if k \<noteq> 0
                 then AList.update ''_request_metadata''
                        (request_metadata (failure_records E 0 (calls w) k) k) body
               else body),
          w\<lparr>calls := calls w + Suc k, draws := draws w + k,
            trace := trace w @ backoff_events E (base_url E @ endpoint) params 0 (calls w) (draws w) k
                       @ [HttpGet (base_url E @ endpoint) params]\<rparr>)"
proof -
  have len: "(failure_records E a c k = []) = (k = 0)" for a c
    by (cases k) auto
  show ?thesis
    unfolding make_request_def
    using loop_after_failures [OF assms(1), of 0 retries "base_url E @ endpoint" params "[]"] assms(2,3)
    by (simp add: loop_step_ok len)
qed

lemma make_request_exhausted:
  assumes "\<forall>i<retries. \<not> succeeded (transport E (calls w + i))" and "0 < retries"
  shows "make_request E endpoint params retries w =
         (Inl (Exc Exception [JStr (exhausted_message (transport E (calls w + retries - 1))
                 @ ''Failed attempts: '' @ py_repr (JList (failure_records E 0 (calls w) retries)))]),
          w\<lparr>calls := calls w + retries, draws := draws w + (retries - 1),
            trace := trace w
              @ backoff_events E (base_url E @ endpoint) params 0 (calls w) (draws w) (retries - 1)
              @ [HttpGet (base_url E @ endpoint) params,
                 Log WARNING (failure_line (transport E (calls w + retries - 1)))]\<rparr>)"
proof -
  obtain k where k: "retries = Suc k" using assms(2) by (cases retries) auto
  have fr: "failure_records E a c (Suc n) = failure_records E a c n @ [failure_record (a + n) (transport E (c + n))]" for a c n
    by (induction n arbitrary: a c) auto
  have a: "\<forall>i<k. \<not> succeeded (transport E (calls w + i))" using assms(1) k by auto
  have l: "\<not> succeeded (transport E (calls w + k))" using assms(1) k by auto
  show ?thesis
    unfolding make_request_def
    using loop_after_failures [OF a, of 0 retries "base_url E @ endpoint" params "[]"] k l
    by (simp add: loop_step_last fr del: failure_records.simps)
qed

lemma leading_failures_le: "leading_failures E c n \<le> n"
  by (induction n arbitrary: c) auto

lemma leading_failures_failed:
  "i < leading_failures E c n \<Longrightarrow> \<not> succeeded (transport E (c + i))"
proof (induction n arbitrary: c i)
  case 0
  then show ?case by simp
next
  case (Suc n)
  show ?case
  proof (cases i)
    case 0
    with Suc.prems show ?thesis by (simp split: if_splits)
  next
    case (Suc j)
    with Suc.prems have "j < leading_failures E (Suc c) n" by (simp split: if_splits)
    from Suc.IH [OF this] show ?thesis using Suc by simp
  qed
qed

lemma leading_failures_stop:
  "leading_failures E c n < n \<Longrightarrow> succeeded (transport E (c + leading_failures E c n))"
proof (induction n arbitrary: c)
  case 0
  then show ?case by simp
next
  case (Suc n)
  show ?case
  proof (cases "succeeded (transport E c)")
    case True
    then show ?thesis by simp
  next
    case False
    with Suc.prems have "leading_failures E (Suc c) n < n" by simp
    from Suc.IH [OF this] show ?thesis using False by simp
  qed
qed

lemma succeeded_iff: "succeeded out \<longleftrightarrow> (\<exists>body. out = Response 200 body)"
  by (cases out) (auto simp: succeeded_def)

lemma length_failure_records: "length (failure_records E a c k) = k"
  by (induction k arbitrary: a c) auto

lemma nth_failure_records:
  "i < k \<Longrightarrow> failure_records E a c k ! i = failure_record (a + i) (transport E (c + i))"
proof (induction k arbitrary: a c i)
  case 0
  then show ?case by simp
next
  case (Suc k)
  then show ?case by (cases i) auto
qed

lemma sleeps_of_backoff_events:
  "filter is_sleep (backoff_events E url params a c d k) =
     map (\<lambda>i. Sleep (2 ^ (a + i) + jitter E (d + i))) [0..<k]"
proof (induction k arbitrary: a c d)
  case 0
  then show ?case by simp
next
  case (Suc k)
  have "[0..<Suc k] = 0 # map Suc [0..<k]"
    by (simp add: upt_conv_Cons map_Suc_upt del: upt_Suc)
  then show ?case using Suc.IH [of "Suc a" "Suc c" "Suc d"]
    by (simp add: is_sleep_def comp_def del: upt_Suc)
qed


text \<open>
  Claim C8. One call of \<^verbatim>\<open>_make_request\<close> makes at most \<open>retries\<close> attempts (3 in
  every call of the service): as many as there are failures before the first response
  with status 200, plus that one. An attempt is retried exactly when it ended in another
  status than 200, in a timeout or in a transport exception. When every attempt failed,
  the exception lists one record per attempt, the last included. Each attempt but the
  final one is followed by one pause of \<open>2 ^ attempt\<close> seconds plus the value drawn
  from \<^verbatim>\<open>random.uniform(0, 1)\<close>; nothing follows the final attempt.
\<close>

theorem retry_policy:
  fixes E :: env and endpoint :: string and w :: world and retries :: nat
    and params :: "(string \<times> param) list option"
  defines "k \<equiv> leading_failures E (calls w) retries"
    and "url \<equiv> base_url E @ endpoint"
    and "res \<equiv> make_request E endpoint params retries w"
  assumes "0 < retries"
  shows "calls (snd res) = calls w + min (Suc k) retries
       \<and> (\<forall>i<k. \<not> succeeded (transport E (calls w + i)))
       \<and> (k < retries \<longrightarrow> succeeded (transport E (calls w + k)) \<and> (\<exists>body. fst res = Inr body))
       \<and> (\<not> k < retries \<longrightarrow>
            fst res = Inl (Exc Exception [JStr (exhausted_message (transport E (calls w + retries - 1))
                        @ ''Failed attempts: '' @ py_repr (JList (failure_records E 0 (calls w) retries)))])
            \<and> length (failure_records E 0 (calls w) retries) = retries)
       \<and> trace (snd res) = trace w
            @ backoff_events E url params 0 (calls w) (draws w) (min (Suc k) retries - 1)
            @ (if k < retries then [HttpGet url params]
               else [HttpGet url params, Log WARNING (failure_line (transport E (calls w + retries - 1)))])
       \<and> filter is_sleep (trace (snd res)) = filter is_sleep (trace w)
            @ map (\<lambda>i. Sleep (2 ^ i + jitter E (draws w + i))) [0..<min (Suc k) retries - 1]
       \<and> (\<forall>out. \<not> succeeded out \<longleftrightarrow>
            (\<exists>status body. out = Response status body \<and> status \<noteq> 200) \<or> out = Timeout
              \<or> (\<exists>msg. out = RequestException msg))
       \<and> calls (snd (get_merchant E mid w)) \<le> calls w + 3
       \<and> calls (snd (get_transactions E mid start_date end_date page w)) \<le> calls w + 3"
proof -
  have kle: "k \<le> retries" unfolding k_def by (rule leading_failures_le)
  have fails: "\<forall>i<k. \<not> succeeded (transport E (calls w + i))"
    unfolding k_def by (auto dest: leading_failures_failed)
  have cls: "\<forall>out. \<not> succeeded out \<longleftrightarrow>
            (\<exists>status body. out = Response status body \<and> status \<noteq> 200) \<or> out = Timeout
              \<or> (\<exists>msg. out = RequestException msg)"
  proof
    fix out show "\<not> succeeded out \<longleftrightarrow>
            (\<exists>status body. out = Response status body \<and> status \<noteq> 200) \<or> out = Timeout
              \<or> (\<exists>msg. out = RequestException msg)"
      by (cases out) (auto simp: succeeded_def)
  qed
  have bound: "calls (snd (make_request E ep ps n w)) \<le> calls w + n" if "0 < n" for ep ps n
  proof (cases "leading_failures E (calls w) n < n")
    case True
    then obtain body where
      b: "transport E (calls w + leading_failures E (calls w) n) = Response 200 body"
      using leading_failures_stop succeeded_iff by blast
    have "\<forall>i<leading_failures E (calls w) n. \<not> succeeded (transport E (calls w + i))"
      by (auto dest: leading_failures_failed)
    from make_request_succeeds [OF this b True] True show ?thesis by simp
  next
    case False
    then have "leading_failures E (calls w) n = n"
      using leading_failures_le [of E "calls w" n] by simp
    then have "\<forall>i<n. \<not> succeeded (transport E (calls w + i))"
      using leading_failures_failed [of _ E "calls w" n] by auto
    from make_request_exhausted [OF this that] show ?thesis by simp
  qed
  have dflt: "calls (snd (get_merchant E mid w)) \<le> calls w + 3
       \<and> calls (snd (get_transactions E mid start_date end_date page w)) \<le> calls w + 3"
    unfolding get_merchant_def get_transactions_def using bound [of 3] by simp
  show ?thesis
  proof (cases "k < retries")
    case True
    then obtain body where b: "transport E (calls w + k) = Response 200 body"
      using leading_failures_stop succeeded_iff unfolding k_def by blast
    have r: "res = (Inr (if k \<noteq> 0
                 then AList.update ''_request_metadata''
                        (request_metadata (failure_records E 0 (calls w) k) k) body
               else body),
          w\<lparr>calls := calls w + Suc k, draws := draws w + k,
            trace := trace w @ backoff_events E url params 0 (calls w) (draws w) k
                       @ [HttpGet url params]\<rparr>)"
      unfolding res_def url_def by (rule make_request_succeeds [OF fails b True])
    have m: "min (Suc k) retries = Suc k" using True by simp
    show ?thesis
      using True fails cls dflt b
      by (simp add: r m succeeded_def sleeps_of_backoff_events is_sleep_def del: upt_Suc)
  next
    case False
    then have keq: "k = retries" using kle by simp
    have all: "\<forall>i<retries. \<not> succeeded (transport E (calls w + i))" using fails keq by simp
    have r: "res = (Inl (Exc Exception [JStr (exhausted_message (transport E (calls w + retries - 1))
                 @ ''Failed attempts: '' @ py_repr (JList (failure_records E 0 (calls w) retries)))]),
          w\<lparr>calls := calls w + retries, draws := draws w + (retries - 1),
            trace := trace w
              @ backoff_events E url params 0 (calls w) (draws w) (retries - 1)
              @ [HttpGet url params,
                 Log WARNING (failure_line (transport E (calls w + retries - 1)))]\<rparr>)"
      unfolding res_def url_def by (rule make_request_exhausted [OF all assms(4)])
    have m: "min (Suc k) retries = retries" using keq by simp
    show ?thesis
      using False fails cls dflt
      by (simp add: r m keq length_failure_records sleeps_of_backoff_events is_sleep_def
            del: upt_Suc)
  qed
qed

theorem retry_policy_witness:
  "(0::nat) < 3
   \<and> leading_failures recovering_env (calls world0) 3 = 2
   \<and> calls (snd (make_request recovering_env ''/merchants/m1/'' None 3 world0)) = 3
   \<and> filter is_sleep (trace (snd (make_request recovering_env ''/merchants/m1/'' None 3 world0)))
       = [Sleep (3 / 2), Sleep (5 / 2)]"
proof -
  have p: "(0::nat) < 3" by simp
  have k: "leading_failures recovering_env (calls world0) 3 = 2" by (simp add: text_eval decimal_eval json_eval client_eval service_eval example_eval
          count_eval Let_def)
  note r = retry_policy [where E = recovering_env and w = world0 and retries = 3
      and endpoint = "''/merchants/m1/''" and params = None and mid = "''m1''"
      and start_date = march_1 and end_date = march_1 and page = 1, OF p]
  have c: "calls (snd (make_request recovering_env ''/merchants/m1/'' None 3 world0)) = 3"
    using r [THEN conjunct1] k by (simp add: world0_def)
  have u: "[0..<2] = [0, Suc 0]" by (simp add: upt_rec)
  have s: "filter is_sleep (trace (snd (make_request recovering_env ''/merchants/m1/'' None 3 world0)))
       = [Sleep (3 / 2), Sleep (5 / 2)]"
    using r [THEN conjunct2, THEN conjunct2, THEN conjunct2, THEN conjunct2, THEN conjunct2,
             THEN conjunct1] k u
    by (simp add: world0_def recovering_env_def)
  show ?thesis using p k c s by simp
qed

section \<open>Failure records on the way to the report\<close>

lemma contains_append: "contains (pre @ needle @ post) needle"
proof (induction pre)
  case Nil
  have "prefix needle (needle @ post)" by simp
  then show ?case by (cases "needle @ post") auto
next
  case (Cons c pre)
  then show ?case by simp
qed

lemma exhausted_is_failed_page:
  "page_error page (Exc Exception [JStr (msg @ ''Failed attempts: '' @ rest)]) =
     JObj [(''page'', JInt (int page)), (''error'', JStr ''Failed to fetch page''),
           (''details'', JStr (msg @ ''Failed attempts: '' @ rest))]"
proof -
  have "contains (msg @ ''Failed attempts:'' @ ('' '' @ rest)) ''Failed attempts:''"
    by (rule contains_append)
  then show ?thesis by (simp add: page_error_def)
qed





text \<open>
  Claim C6, as the specification states it, fails on the code: when every attempt has
  timed out, what \<^verbatim>\<open>_make_request\<close> raises is a plain \<^verbatim>\<open>Exception\<close> whose only
  argument is a text, and the failure records are in it only as the text of their
  \<^verbatim>\<open>repr\<close>.
\<close>

theorem exhaustion_is_not_a_typed_error:
  "fst (make_request dead_env ''/merchants/m1/'' None 3 world0) =
     Inl (Exc Exception [JStr ''API request timed out after multiple attempts. Failed attempts: [{'attempt': 1, 'status_code': None, 'error_type': 'timeout'}, {'attempt': 2, 'status_code': None, 'error_type': 'timeout'}, {'attempt': 3, 'status_code': None, 'error_type': 'timeout'}]''])
   \<and> \<not> spec_request_exhausted (projl (fst (make_request dead_env ''/merchants/m1/'' None 3 world0)))
         [timeout_record 0, timeout_record 1, timeout_record 2]"
proof -
  have "fst (make_request dead_env ''/merchants/m1/'' None 3 world0) =
     Inl (Exc Exception [JStr ''API request timed out after multiple attempts. Failed attempts: [{'attempt': 1, 'status_code': None, 'error_type': 'timeout'}, {'attempt': 2, 'status_code': None, 'error_type': 'timeout'}, {'attempt': 3, 'status_code': None, 'error_type': 'timeout'}]''])"
    by (simp add: text_eval decimal_eval json_eval client_eval service_eval example_eval
          count_eval Let_def)
  then show ?thesis by (simp add: spec_request_exhausted_def)
qed

text \<open>
  Claim C6, amended. When all attempts of a call fail, \<^verbatim>\<open>_make_request\<close> raises
  \<^verbatim>\<open>Exception\<close> with one argument, a message that ends with \<^verbatim>\<open>Failed attempts: \<close> and
  the \<^verbatim>\<open>repr\<close> of the list of all failure records, one per attempt and in their order.
  The callers recognise it by the text \<^verbatim>\<open>Failed attempts:\<close> in the message, and the
  pagination then records \<^verbatim>\<open>Failed to fetch page\<close> with the message as details.
\<close>

theorem exhaustion_raises_message:
  assumes "\<forall>i<retries. \<not> succeeded (transport E (calls w + i))" and "0 < retries"
  shows "fst (make_request E endpoint params retries w) =
           Inl (Exc Exception [JStr (exhausted_message (transport E (calls w + retries - 1))
                  @ ''Failed attempts: '' @ py_repr (JList (failure_records E 0 (calls w) retries)))])
       \<and> length (failure_records E 0 (calls w) retries) = retries
       \<and> (\<forall>i<retries. failure_records E 0 (calls w) retries ! i
                          = failure_record i (transport E (calls w + i)))
       \<and> exc_args (projl (fst (make_request E endpoint params retries w))) =
           [JStr (exc_str (projl (fst (make_request E endpoint params retries w))))]
       \<and> contains (exc_str (projl (fst (make_request E endpoint params retries w))))
           ''Failed attempts:''
       \<and> page_error page (projl (fst (make_request E endpoint params retries w))) =
           JObj [(''page'', JInt (int page)), (''error'', JStr ''Failed to fetch page''),
                 (''details'', JStr (exc_str (projl (fst (make_request E endpoint params retries w)))))]"
proof -
  let ?msg = "exhausted_message (transport E (calls w + retries - 1))"
  let ?rest = "py_repr (JList (failure_records E 0 (calls w) retries))"
  have m: "fst (make_request E endpoint params retries w) =
             Inl (Exc Exception [JStr (?msg @ ''Failed attempts: '' @ ?rest)])"
    using make_request_exhausted [OF assms] by simp
  have c: "contains (?msg @ ''Failed attempts:'' @ ('' '' @ ?rest)) ''Failed attempts:''"
    by (rule contains_append)
  show ?thesis
    using c exhausted_is_failed_page [of page ?msg ?rest]
    by (simp add: m length_failure_records nth_failure_records del: py_repr.simps)
qed

theorem exhaustion_raises_message_witness:
  "(0::nat) < 3 \<and> \<not> succeeded (transport dead_env 0) \<and> \<not> succeeded (transport dead_env 1)
   \<and> \<not> succeeded (transport dead_env 2)
   \<and> contains (exc_str (projl (fst (make_request dead_env ''/transactions/'' None 3 world0))))
        ''Failed attempts:''
   \<and> length (failure_records dead_env 0 0 3) = 3"
proof -
  have f: "\<forall>i<3. \<not> succeeded (transport dead_env (calls world0 + i))"
    by (simp add: dead_env_def succeeded_def)
  have p: "(0::nat) < 3" by simp
  note r = exhaustion_raises_message [OF f p, of "''/transactions/''" None 1]
  have c: "contains (exc_str (projl (fst (make_request dead_env ''/transactions/'' None 3 world0))))
        ''Failed attempts:''"
    by (rule r [THEN conjunct2, THEN conjunct2, THEN conjunct2, THEN conjunct2, THEN conjunct1])
  have l: "length (failure_records dead_env 0 0 3) = 3"
    using r [THEN conjunct2, THEN conjunct1] by (simp add: world0_def)
  have n: "\<not> succeeded (transport dead_env 0) \<and> \<not> succeeded (transport dead_env 1)
     \<and> \<not> succeeded (transport dead_env 2)"
    by (simp add: dead_env_def succeeded_def)
  show ?thesis using p n c l by blast
qed

section \<open>Pagination\<close>


lemma fetch_loop_page_ok:
  assumes "transport E (calls w) = Response 200 body"
    and "metadata_failures body = Inr failed"
    and "py_iter (dict_get body ''results'' (JList [])) = Inr page_txs"
  shows "\<exists>w'. calls w' = Suc (calls w) \<and>
          fetch_loop (Suc fuel) E mid start_date end_date page txs errs w =
            (if \<not> truthy (dict_get body ''next'' JNull)
               then Some ((txs @ page_txs, errs @ failed), w')
             else fetch_loop fuel E mid start_date end_date (Suc page) (txs @ page_txs)
                    (errs @ failed) w')"
proof -
  have a: "\<forall>i<0. \<not> succeeded (transport E (calls w + i))" by simp
  have b: "transport E (calls w + 0) = Response 200 body" using assms(1) by simp
  have p: "(0::nat) < 3" by simp
  obtain w1 where g: "get_transactions E mid start_date end_date page w = (Inr body, w1)"
    and c: "calls w1 = Suc (calls w)"
    using make_request_succeeds [OF a b p] by (simp add: get_transactions_def)
  have "fetch_loop (Suc fuel) E mid start_date end_date page txs errs w =
            (if \<not> truthy (dict_get body ''next'' JNull)
               then Some ((txs @ page_txs, errs @ failed), w1)
             else fetch_loop fuel E mid start_date end_date (Suc page) (txs @ page_txs)
                    (errs @ failed) w1)"
    using g assms(2,3) by simp
  with c show ?thesis by blast
qed




section \<open>When the calculation fails\<close>







section \<open>The settlement period\<close>

lemma div_step:
  fixes y k :: int
  assumes "0 < k"
  shows "y div k = (y - 1) div k + (if y mod k = 0 then 1 else 0)"
proof -
  define q where "q = (y - 1) div k"
  define r where "r = (y - 1) mod k"
  have r: "0 \<le> r" "r < k" using assms by (simp_all add: r_def)
  have "y - 1 = k * q + r" by (simp add: q_def r_def)
  then have y: "y = k * q + (r + 1)" by simp
  show ?thesis
  proof (cases "r + 1 = k")
    case True
    then have y': "y = k * (q + 1) + 0" using y by (simp add: algebra_simps)
    have "y div k = q + 1" using assms by (intro int_div_pos_eq [OF y']) simp_all
    moreover have "y mod k = 0" using assms by (intro int_mod_pos_eq [OF y']) simp_all
    ultimately show ?thesis by (simp add: q_def)
  next
    case False
    then have lt: "r + 1 < k" using r by simp
    have "y div k = q" using r lt by (intro int_div_pos_eq [OF y]) simp_all
    moreover have "y mod k = r + 1" using r lt by (intro int_mod_pos_eq [OF y]) simp_all
    ultimately show ?thesis using r by (simp add: q_def)
  qed
qed



lemma days_before_year_step:
  "days_before_year (y + 1) = days_before_year y + 365 + (if is_leap y then 1 else 0)"
proof -
  define a :: int where "a = (if y mod 4 = 0 then 1 else 0)"
  define b :: int where "b = (if y mod 100 = 0 then 1 else 0)"
  define c :: int where "c = (if y mod 400 = 0 then 1 else 0)"
  have d: "y mod 100 = 0" if "y mod 400 = 0"
  proof -
    from that have "400 dvd y" by (simp add: dvd_eq_mod_eq_0)
    moreover have "(100::int) dvd 400" by simp
    ultimately have "100 dvd y" by (rule dvd_trans [rotated])
    then show ?thesis by (simp add: dvd_eq_mod_eq_0)
  qed
  have e: "y mod 4 = 0" if "y mod 100 = 0"
  proof -
    from that have "100 dvd y" by (simp add: dvd_eq_mod_eq_0)
    moreover have "(4::int) dvd 100" by simp
    ultimately have "4 dvd y" by (rule dvd_trans [rotated])
    then show ?thesis by (simp add: dvd_eq_mod_eq_0)
  qed
  have s4: "y div 4 = (y - 1) div 4 + a"
    unfolding a_def by (rule div_step) simp
  have s100: "y div 100 = (y - 1) div 100 + b"
    unfolding b_def by (rule div_step) simp
  have s400: "y div 400 = (y - 1) div 400 + c"
    unfolding c_def by (rule div_step) simp
  consider (n4) "y mod 4 \<noteq> 0" | (y4) "y mod 4 = 0" "y mod 100 \<noteq> 0"
    | (y100) "y mod 100 = 0" "y mod 400 \<noteq> 0" | (y400) "y mod 400 = 0"
    by fast
  then have leap: "(if is_leap y then 1 else 0) = a - b + c"
  proof cases
    case n4
    moreover from n4 e have "y mod 100 \<noteq> 0" by fast
    moreover from this d have "y mod 400 \<noteq> 0" by fast
    ultimately show ?thesis by (simp add: is_leap_def a_def b_def c_def)
  next
    case y4
    moreover from y4 d have "y mod 400 \<noteq> 0" by fast
    ultimately show ?thesis by (simp add: is_leap_def a_def b_def c_def)
  next
    case y100
    moreover from y100 e have "y mod 4 = 0" by fast
    ultimately show ?thesis by (simp add: is_leap_def a_def b_def c_def)
  next
    case y400
    moreover from y400 d have "y mod 100 = 0" by fast
    moreover from this e have "y mod 4 = 0" by fast
    ultimately show ?thesis by (simp add: is_leap_def a_def b_def c_def)
  qed
  have "days_before_year (y + 1) = y * 365 + y div 4 - y div 100 + y div 400"
    by (simp add: days_before_year_def)
  also have "\<dots> = days_before_year y + 365 + (a - b + c)"
    unfolding s4 s100 s400 days_before_year_def by (simp add: algebra_simps)
  finally show ?thesis by (simp only: leap)
qed

lemma month_cases:
  fixes m :: int
  assumes "1 \<le> m" "m \<le> 12"
  shows "m = 1 \<or> m = 2 \<or> m = 3 \<or> m = 4 \<or> m = 5 \<or> m = 6 \<or> m = 7 \<or> m = 8 \<or> m = 9
      \<or> m = 10 \<or> m = 11 \<or> m = 12"
proof -
  obtain k where k: "m = int k" using assms by (metis nonneg_int_cases order_trans zero_le_one)
  have "k < 13" using assms k by simp
  then have "k = 0 \<or> k = 1 \<or> k = 2 \<or> k = 3 \<or> k = 4 \<or> k = 5 \<or> k = 6 \<or> k = 7 \<or> k = 8
      \<or> k = 9 \<or> k = 10 \<or> k = 11 \<or> k = 12"
    by (simp add: numeral_eq_Suc less_Suc_eq)
  then show ?thesis using assms k by auto
qed

lemma days_before_month_step:
  assumes "1 \<le> m" "m < 12"
  shows "days_before_month y (m + 1) = days_before_month y m + days_in_month y m"
proof -
  from assms month_cases [of m]
  have "m = 1 \<or> m = 2 \<or> m = 3 \<or> m = 4 \<or> m = 5 \<or> m = 6 \<or> m = 7 \<or> m = 8 \<or> m = 9
      \<or> m = 10 \<or> m = 11" by simp
  then show ?thesis
    by (elim disjE) (simp_all add: days_before_month_def days_in_month_def)
qed


lemma toordinal_minus_one_day:
  assumes "valid_date d" and "minus_one_day d = Inr p"
  shows "toordinal p = toordinal d - 1 \<and> valid_date p
       \<and> hour p = hour d \<and> minute p = minute d \<and> second p = second d
       \<and> microsecond p = microsecond d \<and> tzinfo p = tzinfo d"
proof (cases "1 < day d")
  case True
  then have "p = d\<lparr>day := day d - 1\<rparr>"
    using assms(2) by (simp add: minus_one_day_def split: if_splits)
  then show ?thesis
    using assms(1) True by (simp add: toordinal_def valid_date_def)
next
  case False
  note d1 = this
  have dd: "day d = 1" using d1 assms(1) by (simp add: valid_date_def)
  show ?thesis
  proof (cases "1 < month d")
    case True
    have p: "p = d\<lparr>month := month d - 1, day := days_in_month (year d) (month d - 1)\<rparr>"
      using assms(2) dd True by (simp add: minus_one_day_def split: if_splits)
    have "days_before_month (year d) (month d - 1 + 1)
            = days_before_month (year d) (month d - 1) + days_in_month (year d) (month d - 1)"
      using True assms(1) by (intro days_before_month_step) (simp_all add: valid_date_def)
    then have s: "days_before_month (year d) (month d)
            = days_before_month (year d) (month d - 1) + days_in_month (year d) (month d - 1)"
      by simp
    have "1 \<le> days_in_month (year d) (month d - 1)"
      by (simp add: days_in_month_def)
    then show ?thesis
      using assms(1) True dd s by (simp add: p toordinal_def valid_date_def)
  next
    case False
    have m1: "month d = 1"
      using False assms(1) by (simp add: valid_date_def)
    have y: "1 < year d"
      using assms m1 dd by (simp add: minus_one_day_def valid_date_def split: if_splits)
    have p: "p = d\<lparr>year := year d - 1, month := 12, day := 31\<rparr>"
      using assms(2) m1 dd by (simp add: minus_one_day_def split: if_splits)
    have "days_before_year (year d - 1 + 1)
            = days_before_year (year d - 1) + 365 + (if is_leap (year d - 1) then 1 else 0)"
      by (rule days_before_year_step)
    then have s: "days_before_year (year d)
            = days_before_year (year d - 1) + 365 + (if is_leap (year d - 1) then 1 else 0)"
      by simp
    show ?thesis
      using assms(1) y m1 dd s
      by (simp add: p toordinal_def valid_date_def days_before_month_def days_in_month_def)
  qed
qed

lemma get_settlement_period_result:
  assumes "zones E ''UTC'' = Some utc"
    and "\<not> (year d = 1 \<and> month d = 1 \<and> day d = 1)"
  shows "\<exists>p. minus_one_day (d\<lparr>tzinfo := Some (if zones E tz = None then ''UTC'' else tz)\<rparr>) = Inr p
       \<and> get_settlement_period E d tz w =
           (Inr (end_of_day p,
                 end_of_day (d\<lparr>tzinfo := Some (if zones E tz = None then ''UTC'' else tz)\<rparr>)),
            if zones E tz = None then emit (Log WARNING 156) w else w)"
  using assms
  by (cases "zones E tz")
     (auto simp: get_settlement_period_def ZoneInfo_def minus_one_day_def Let_def)

text \<open>
  Claim C2, as the specification states it, fails on the code: for the first of March
  2024 in UTC the period runs from February 29 at 23:59:59.999999 to March 1 at
  23:59:59.999999, and the end minus the start is 24 hours, not 24 hours less a
  microsecond, as a difference of datetimes and as elapsed time alike.
\<close>

theorem period_is_a_full_day:
  "fst (get_settlement_period quiet_env march_1 ''UTC'' world0) =
     Inr (end_of_day (march_1\<lparr>month := 2, day := 29, tzinfo := Some ''UTC''\<rparr>),
          end_of_day (march_1\<lparr>tzinfo := Some ''UTC''\<rparr>))
   \<and> datetime_sub utc_only (end_of_day (march_1\<lparr>tzinfo := Some ''UTC''\<rparr>))
         (end_of_day (march_1\<lparr>month := 2, day := 29, tzinfo := Some ''UTC''\<rparr>))
       = Inr (24 * 3600 * 1000000)
   \<and> elapsed utc_only (end_of_day (march_1\<lparr>tzinfo := Some ''UTC''\<rparr>))
         (end_of_day (march_1\<lparr>month := 2, day := 29, tzinfo := Some ''UTC''\<rparr>))
       = Some (24 * 3600 * 1000000)
   \<and> (24 * 3600 * 1000000 :: int) \<noteq> 24 * 3600 * 1000000 - 1"
  by (simp add: service_eval example_eval datetime_sub_def elapsed_def utcoffset_def
        wall_clock_diff_def toordinal_def days_before_year_def days_before_month_def)

text \<open>
  Claim C2, amended. For every valid calendar date after 0001-01-01 and every timezone
  name, with UTC in the zone database, \<^verbatim>\<open>_get_settlement_period\<close> returns a period
  whose end is the given date at 23:59:59.999999 and whose start is the calendar day
  before (the date of the preceding ordinal) at 23:59:59.999999, both in the resolved
  zone. The end minus the start, which Python computes on the wall clocks because the
  two values carry the same zone object, is exactly 24 hours; the time that passes
  between the two instants is 24 hours less the change of the zone's offset from the
  start to the end.
\<close>

theorem period_spans_one_calendar_day:
  assumes "valid_date d" and "\<not> (year d = 1 \<and> month d = 1 \<and> day d = 1)"
    and "zones E ''UTC'' = Some utc"
    and "zones E (if zones E tz = None then ''UTC'' else tz) = Some off"
  shows "\<exists>period_start period_end w'.
           get_settlement_period E d tz w = (Inr (period_start, period_end), w')
         \<and> period_end = d\<lparr>hour := 23, minute := 59, second := 59, microsecond := 999999,
                            tzinfo := Some (if zones E tz = None then ''UTC'' else tz)\<rparr>
         \<and> hour period_start = 23 \<and> minute period_start = 59 \<and> second period_start = 59
         \<and> microsecond period_start = 999999 \<and> tzinfo period_start = tzinfo period_end
         \<and> valid_date period_start \<and> toordinal period_start = toordinal d - 1
         \<and> datetime_sub (zones E) period_end period_start = Inr (24 * 3600 * 1000000)
         \<and> elapsed (zones E) period_end period_start
             = Some (24 * 3600 * 1000000 - (off period_end - off period_start))"
proof -
  let ?zone = "if zones E tz = None then ''UTC'' else tz"
  from get_settlement_period_result [OF assms(3,2), of tz w]
  obtain p where p: "minus_one_day (d\<lparr>tzinfo := Some ?zone\<rparr>) = Inr p"
    and g: "get_settlement_period E d tz w =
           (Inr (end_of_day p, end_of_day (d\<lparr>tzinfo := Some ?zone\<rparr>)),
            if zones E tz = None then emit (Log WARNING 156) w else w)"
    by blast
  have v: "valid_date (d\<lparr>tzinfo := Some ?zone\<rparr>)"
    using assms(1) by (simp add: valid_date_def)
  from toordinal_minus_one_day [OF v p]
  have t: "toordinal p = toordinal d - 1" and vp: "valid_date p" and z: "tzinfo p = Some ?zone"
    by (simp_all add: toordinal_def)
  have te: "toordinal (end_of_day p) = toordinal d - 1"
    and tz: "toordinal (end_of_day (d\<lparr>tzinfo := Some ?zone\<rparr>)) = toordinal d"
    using t by (simp_all add: toordinal_def end_of_day_def)
  have w: "wall_clock_diff (end_of_day (d\<lparr>tzinfo := Some ?zone\<rparr>)) (end_of_day p)
             = 24 * 3600 * 1000000"
    unfolding wall_clock_diff_def te tz by (simp add: end_of_day_def)
  have s: "datetime_sub (zones E) (end_of_day (d\<lparr>tzinfo := Some ?zone\<rparr>)) (end_of_day p)
             = Inr (24 * 3600 * 1000000)"
    unfolding datetime_sub_def w using z by (simp add: end_of_day_def)
  have e: "elapsed (zones E) (end_of_day (d\<lparr>tzinfo := Some ?zone\<rparr>)) (end_of_day p)
             = Some (24 * 3600 * 1000000
                 - (off (end_of_day (d\<lparr>tzinfo := Some ?zone\<rparr>)) - off (end_of_day p)))"
    unfolding elapsed_def w using z assms(4) by (simp add: utcoffset_def end_of_day_def)
  have vs: "valid_date (end_of_day p)" using vp by (simp add: valid_date_def end_of_day_def)
  show ?thesis
    using g s e te vs z
    by (intro exI [of _ "end_of_day p"] exI [of _ "end_of_day (d\<lparr>tzinfo := Some ?zone\<rparr>)"]
          exI [of _ "if zones E tz = None then emit (Log WARNING 156) w else w"])
       (simp add: end_of_day_def)
qed

theorem period_spans_one_calendar_day_witness:
  "valid_date march_10 \<and> \<not> (year march_10 = 1 \<and> month march_10 = 1 \<and> day march_10 = 1)
   \<and> zones dst_env ''UTC'' \<noteq> None \<and> zones dst_env ''America/New_York'' \<noteq> None
   \<and> fst (get_settlement_period dst_env march_10 ''America/New_York'' world0) =
        Inr (end_of_day (march_10\<lparr>day := 9, tzinfo := Some ''America/New_York''\<rparr>),
             end_of_day (march_10\<lparr>tzinfo := Some ''America/New_York''\<rparr>))
   \<and> datetime_sub zones_2024 (end_of_day (march_10\<lparr>tzinfo := Some ''America/New_York''\<rparr>))
         (end_of_day (march_10\<lparr>day := 9, tzinfo := Some ''America/New_York''\<rparr>))
       = Inr (24 * 3600 * 1000000)
   \<and> elapsed zones_2024 (end_of_day (march_10\<lparr>tzinfo := Some ''America/New_York''\<rparr>))
         (end_of_day (march_10\<lparr>day := 9, tzinfo := Some ''America/New_York''\<rparr>))
       = Some (23 * 3600 * 1000000)"
proof -
  define off :: "datetime \<Rightarrow> int" where
    "off = (\<lambda>d. if (month d = 3 \<and> 10 \<le> day d) \<or> (3 < month d \<and> month d < 11)
                             \<or> (month d = 11 \<and> day d < 3)
                          then - 4 * 3600000000 else - 5 * 3600000000)"
  have v: "valid_date march_10"
    by (simp add: valid_date_def example_eval days_in_month_def)
  have n: "\<not> (year march_10 = 1 \<and> month march_10 = 1 \<and> day march_10 = 1)"
    by (simp add: example_eval)
  have u: "zones dst_env ''UTC'' = Some (\<lambda>d. 0)"
    by (simp add: example_eval)
  have z: "zones dst_env (if zones dst_env ''America/New_York'' = None then ''UTC''
                          else ''America/New_York'') = Some off"
    by (simp add: example_eval off_def)
  from period_spans_one_calendar_day [OF v n u z, of world0]
  obtain period_start period_end w' where
    g: "get_settlement_period dst_env march_10 ''America/New_York'' world0
          = (Inr (period_start, period_end), w')"
    and s: "datetime_sub (zones dst_env) period_end period_start = Inr (24 * 3600 * 1000000)"
    and e: "elapsed (zones dst_env) period_end period_start
             = Some (24 * 3600 * 1000000 - (off period_end - off period_start))"
    by blast
  have c: "fst (get_settlement_period dst_env march_10 ''America/New_York'' world0) =
        Inr (end_of_day (march_10\<lparr>day := 9, tzinfo := Some ''America/New_York''\<rparr>),
             end_of_day (march_10\<lparr>tzinfo := Some ''America/New_York''\<rparr>))"
    by (simp add: service_eval example_eval)
  with g have ps: "period_start = end_of_day (march_10\<lparr>day := 9, tzinfo := Some ''America/New_York''\<rparr>)"
    and pe: "period_end = end_of_day (march_10\<lparr>tzinfo := Some ''America/New_York''\<rparr>)"
    by simp_all
  have zd: "zones dst_env = zones_2024" by (simp add: dst_env_def quiet_env_def)
  have o: "off period_end - off period_start = 3600000000"
    by (simp add: ps pe off_def end_of_day_def example_eval)
  have s': "datetime_sub zones_2024 (end_of_day (march_10\<lparr>tzinfo := Some ''America/New_York''\<rparr>))
         (end_of_day (march_10\<lparr>day := 9, tzinfo := Some ''America/New_York''\<rparr>))
       = Inr (24 * 3600 * 1000000)"
    using s unfolding ps pe zd .
  have e': "elapsed zones_2024 (end_of_day (march_10\<lparr>tzinfo := Some ''America/New_York''\<rparr>))
         (end_of_day (march_10\<lparr>day := 9, tzinfo := Some ''America/New_York''\<rparr>))
       = Some (23 * 3600 * 1000000)"
    using e o unfolding ps pe zd by simp
  have k: "zones dst_env ''UTC'' \<noteq> None \<and> zones dst_env ''America/New_York'' \<noteq> None"
    by (simp add: example_eval)
  from v n k c s' e' show ?thesis by blast
qed

text \<open>
  Claim C7, as the specification states it, fails on the code: the first day of the
  calendar is a valid date, no day precedes it, and \<^verbatim>\<open>_get_settlement_period\<close> raises
  \<^verbatim>\<open>OverflowError\<close> on it, whatever the timezone name.
\<close>

theorem first_day_has_no_period:
  "valid_date first_day
   \<and> fst (get_settlement_period quiet_env first_day ''UTC'' world0)
       = Inl (Exc OverflowError [JStr ''date value out of range''])
   \<and> fst (get_settlement_period quiet_env first_day ''Mars/Olympus'' world0)
       = Inl (Exc OverflowError [JStr ''date value out of range''])"
  by (simp add: service_eval example_eval valid_date_def)

text \<open>
  Claim C7, amended. For every date after 0001-01-01 and every timezone name, with UTC
  in the zone database, \<^verbatim>\<open>_get_settlement_period\<close> returns a period. When the name is
  not in the database, the period is the one computed for UTC and one warning is
  logged, at line 156; when it is, nothing is logged.
\<close>

theorem unknown_timezone_falls_back_to_utc:
  assumes "zones E ''UTC'' = Some utc"
    and "\<not> (year d = 1 \<and> month d = 1 \<and> day d = 1)"
  shows "(\<exists>period. fst (get_settlement_period E d tz w) = Inr period)
       \<and> (zones E tz = None \<longrightarrow>
            fst (get_settlement_period E d tz w) = fst (get_settlement_period E d ''UTC'' w)
          \<and> snd (get_settlement_period E d ''UTC'' w) = w
          \<and> snd (get_settlement_period E d tz w) = emit (Log WARNING 156) w
          \<and> trace (snd (get_settlement_period E d tz w)) = trace w @ [Log WARNING 156])
       \<and> (zones E tz \<noteq> None \<longrightarrow> snd (get_settlement_period E d tz w) = w)"
proof -
  from get_settlement_period_result [OF assms, of tz w]
  obtain p where p: "minus_one_day (d\<lparr>tzinfo := Some (if zones E tz = None then ''UTC'' else tz)\<rparr>) = Inr p"
    and g: "get_settlement_period E d tz w =
           (Inr (end_of_day p,
                 end_of_day (d\<lparr>tzinfo := Some (if zones E tz = None then ''UTC'' else tz)\<rparr>)),
            if zones E tz = None then emit (Log WARNING 156) w else w)"
    by blast
  from get_settlement_period_result [OF assms, of "''UTC''" w]
  obtain q where q: "minus_one_day (d\<lparr>tzinfo := Some ''UTC''\<rparr>) = Inr q"
    and h: "get_settlement_period E d ''UTC'' w =
           (Inr (end_of_day q, end_of_day (d\<lparr>tzinfo := Some ''UTC''\<rparr>)), w)"
    using assms(1) by auto
  have "zones E tz = None \<longrightarrow> p = q" using p q by auto
  then show ?thesis using g h by (auto simp: emit_def)
qed

theorem unknown_timezone_falls_back_to_utc_witness:
  "zones quiet_env ''UTC'' \<noteq> None \<and> zones quiet_env ''Mars/Olympus'' = None
   \<and> \<not> (year march_1 = 1 \<and> month march_1 = 1 \<and> day march_1 = 1)
   \<and> fst (get_settlement_period quiet_env march_1 ''Mars/Olympus'' world0)
       = Inr (end_of_day (march_1\<lparr>month := 2, day := 29, tzinfo := Some ''UTC''\<rparr>),
              end_of_day (march_1\<lparr>tzinfo := Some ''UTC''\<rparr>))
   \<and> trace (snd (get_settlement_period quiet_env march_1 ''Mars/Olympus'' world0))
       = [Log WARNING 156]"
proof -
  have u: "zones quiet_env ''UTC'' = Some (\<lambda>d. 0)" by (simp add: example_eval)
  have n: "\<not> (year march_1 = 1 \<and> month march_1 = 1 \<and> day march_1 = 1)"
    by (simp add: example_eval)
  have m: "zones quiet_env ''Mars/Olympus'' = None" by (simp add: example_eval)
  note t = unknown_timezone_falls_back_to_utc [OF u n, of "''Mars/Olympus''" world0,
      THEN conjunct2, THEN conjunct1, THEN mp, OF m]
  have c: "fst (get_settlement_period quiet_env march_1 ''UTC'' world0)
       = Inr (end_of_day (march_1\<lparr>month := 2, day := 29, tzinfo := Some ''UTC''\<rparr>),
              end_of_day (march_1\<lparr>tzinfo := Some ''UTC''\<rparr>))"
    by (simp add: service_eval example_eval)
  have a: "fst (get_settlement_period quiet_env march_1 ''Mars/Olympus'' world0)
       = Inr (end_of_day (march_1\<lparr>month := 2, day := 29, tzinfo := Some ''UTC''\<rparr>),
              end_of_day (march_1\<lparr>tzinfo := Some ''UTC''\<rparr>))"
    using t [THEN conjunct1] c by simp
  have b: "trace (snd (get_settlement_period quiet_env march_1 ''Mars/Olympus'' world0))
       = [Log WARNING 156]"
    using t [THEN conjunct2, THEN conjunct2, THEN conjunct2] by (simp add: world0_def)
  from u m n a b show ?thesis by simp
qed

section \<open>The reduce step\<close>


lemma amounts_of_other_type:
  assumes "\<not> has_type types (JObj d)"
  shows "amounts_of types (JObj d # txs) = amounts_of types txs"
  using assms by (simp add: has_type_def py_get_def)

lemma amounts_of_counted:
  assumes "has_type types (JObj d)"
  shows "amounts_of types (JObj d # txs) =
     (case Decimal (amount_text (JObj d)) of
        Inl e \<Rightarrow> Inl e
      | Inr x \<Rightarrow> (case amounts_of types txs of Inl e \<Rightarrow> Inl e | Inr ds \<Rightarrow> Inr (x # ds)))"
  using assms by (simp add: has_type_def amount_text_def py_get_def)


lemma amounts_of_selected:
  "amounts_of types txs = Inr ds \<Longrightarrow>
     map (\<lambda>t. Decimal (amount_text t)) (filter (has_type types) txs) = map Inr ds"
proof (induction txs arbitrary: ds)
  case Nil
  then show ?case by simp
next
  case (Cons t txs)
  show ?case
  proof (cases t)
    case (JObj d)
    show ?thesis
    proof (cases "has_type types (JObj d)")
      case True
      with Cons.prems JObj obtain x ds' where
        x: "Decimal (amount_text (JObj d)) = Inr x" and r: "amounts_of types txs = Inr ds'"
        and d: "ds = x # ds'"
        by (auto simp: amounts_of_counted simp del: amounts_of.simps(2) split: sum.splits)
      from Cons.IH [OF r] show ?thesis using True JObj x d by simp
    next
      case False
      with Cons.prems JObj have "amounts_of types txs = Inr ds"
        by (simp add: amounts_of_other_type del: amounts_of.simps(2))
      from Cons.IH [OF this] show ?thesis using False JObj by simp
    qed
  qed (use Cons.prems in \<open>simp_all add: py_get_def\<close>)
qed



section \<open>Sums without rounding\<close>

lemma length_str_nat_le: "0 < k \<Longrightarrow> n < 10 ^ k \<Longrightarrow> length (str_nat n) \<le> k"
proof (induction k arbitrary: n)
  case 0
  then show ?case by simp
next
  case (Suc k)
  show ?case
  proof (cases "n < 10")
    case True
    then show ?thesis by (simp add: str_nat.simps)
  next
    case False
    then have k: "0 < k" using Suc.prems(2) by (cases k) auto
    have "n div 10 < 10 ^ k" using Suc.prems(2) by (simp add: less_mult_imp_div_less mult.commute)
    from Suc.IH [OF k this] show ?thesis using False by (subst str_nat.simps) simp
  qed
qed

lemma ndigits_le: "n < 10 ^ 28 \<Longrightarrow> ndigits n \<le> 28"
  unfolding ndigits_def by (rule length_str_nat_le) simp_all

lemma dec_fix_exact:
  assumes "c < 10 ^ 28" and "Etiny \<le> e" and "e \<le> 0"
  shows "dec_fix (Fin s c e) = Inr (Fin s c e)"
proof (cases "c = 0")
  case True
  then show ?thesis using assms by (simp add: dec_fix_def Emax_def)
next
  case False
  have n: "int (ndigits c) \<le> 28" using ndigits_le [OF assms(1)] by simp
  have a: "\<not> int (ndigits c) + e - int prec > Etop"
    using n assms(3) by (simp add: prec_def Etop_def Emax_def)
  have b: "\<not> e < max (int (ndigits c) + e - int prec) Etiny"
    using n assms(2) by (simp add: prec_def)
  show ?thesis using False a b by (simp add: dec_fix_def Let_def)
qed

lemma scaled_split:
  assumes "m \<le> e" and "e \<le> e1"
  shows "10 ^ nat (e1 - m) = 10 ^ nat (e1 - e) * (10::int) ^ nat (e - m)"
proof -
  have "nat (e1 - m) = nat (e1 - e) + nat (e - m)" using assms by simp
  then show ?thesis by (simp add: power_add)
qed

lemma dec_add_exact:
  assumes "Etiny \<le> m" and "m \<le> e1" and "m \<le> e2" and "min e1 e2 \<le> 0"
    and "\<bar>scaled m (Fin s1 c1 e1) + scaled m (Fin s2 c2 e2)\<bar> < 10 ^ 28"
  shows "\<exists>s c. dec_add (Fin s1 c1 e1) (Fin s2 c2 e2) = Inr (Fin s c (min e1 e2))
           \<and> scaled m (Fin s c (min e1 e2)) = scaled m (Fin s1 c1 e1) + scaled m (Fin s2 c2 e2)"
proof -
  define e where "e = min e1 e2"
  define total where
    "total = signed s1 c1 * 10 ^ nat (e1 - e) + signed s2 c2 * 10 ^ nat (e2 - e)"
  have me: "m \<le> e" and ee1: "e \<le> e1" and ee2: "e \<le> e2" and e0: "e \<le> 0"
    using assms(2,3,4) by (simp_all add: e_def)
  have sc: "scaled m (Fin s1 c1 e1) + scaled m (Fin s2 c2 e2) = total * 10 ^ nat (e - m)"
    unfolding scaled_def total_def
    by (simp add: scaled_split [OF me ee1] scaled_split [OF me ee2] algebra_simps)
  have p: "(1::int) \<le> 10 ^ nat (e - m)" by simp
  have "\<bar>total\<bar> * 1 \<le> \<bar>total\<bar> * 10 ^ nat (e - m)"
    by (rule mult_left_mono [OF p]) simp
  then have "\<bar>total\<bar> \<le> \<bar>total * 10 ^ nat (e - m)\<bar>" by (simp add: abs_mult)
  with assms(5) sc have t: "\<bar>total\<bar> < 10 ^ 28" by simp
  have nc: "check_nans (Fin s1 c1 e1) (Fin s2 c2 e2) = None"
    by (simp add: check_nans_def is_snan_def is_nan_def)
  have et: "Etiny \<le> e" using assms(1) me by simp
  show ?thesis
  proof (cases "total = 0")
    case True
    have "dec_add (Fin s1 c1 e1) (Fin s2 c2 e2)
            = dec_fix (Fin (c1 = 0 \<and> c2 = 0 \<and> s1 \<and> s2) 0 e)"
      using True by (simp add: dec_add_def nc Let_def total_def e_def)
    also have "\<dots> = Inr (Fin (c1 = 0 \<and> c2 = 0 \<and> s1 \<and> s2) 0 e)"
      by (rule dec_fix_exact) (use et e0 in simp_all)
    finally show ?thesis
      using True sc by (auto simp: e_def scaled_def signed_def)
  next
    case False
    have lt: "nat \<bar>total\<bar> < 10 ^ 28"
    proof -
      have "int (nat \<bar>total\<bar>) < int (10 ^ 28)" using t by simp
      then show ?thesis by (simp only: of_nat_less_iff)
    qed
    have "dec_add (Fin s1 c1 e1) (Fin s2 c2 e2) = dec_fix (Fin (total < 0) (nat \<bar>total\<bar>) e)"
      using False by (simp add: dec_add_def nc Let_def total_def e_def)
    also have "\<dots> = Inr (Fin (total < 0) (nat \<bar>total\<bar>) e)"
      by (rule dec_fix_exact [OF lt et e0])
    finally have d: "dec_add (Fin s1 c1 e1) (Fin s2 c2 e2) = Inr (Fin (total < 0) (nat \<bar>total\<bar>) e)" .
    have "signed (total < 0) (nat \<bar>total\<bar>) = total" by (simp add: signed_def)
    then have "scaled m (Fin (total < 0) (nat \<bar>total\<bar>) e) = total * 10 ^ nat (e - m)"
      by (simp add: scaled_def)
    with d sc show ?thesis by (auto simp: e_def)
  qed
qed

lemma exponent_from_Fin:
  "exponent_from m d \<Longrightarrow> \<exists>s c e. d = Fin s c e \<and> m \<le> e"
  by (cases d) (auto simp: exponent_from_def)

lemma num_add_PyDec: "num_add acc (PyDec d) = lift_dec (dec_add (to_decimal acc) d)"
  by (cases acc) (simp_all add: num_add_def to_decimal_def)

lemma sum_from_exact:
  assumes "Etiny \<le> m" and "list_all (exponent_from m) ds"
    and "to_decimal acc = Fin s c e" and "m \<le> e" and "e \<le> 0"
    and "\<bar>scaled m (Fin s c e)\<bar> + (\<Sum>d\<leftarrow>ds. \<bar>scaled m d\<bar>) < 10 ^ 28"
  shows "\<exists>n s' c' e'. sum_from acc ds = Inr n \<and> to_decimal n = Fin s' c' e' \<and> m \<le> e' \<and> e' \<le> 0
           \<and> scaled m (Fin s' c' e') = scaled m (Fin s c e) + (\<Sum>d\<leftarrow>ds. scaled m d)"
  using assms(2-)
proof (induction ds arbitrary: acc s c e)
  case Nil
  then show ?case by auto
next
  case (Cons d ds)
  have "exponent_from m d" using Cons.prems(1) by simp
  from exponent_from_Fin [OF this]
  obtain s2 c2 e2 where d: "d = Fin s2 c2 e2" and me2: "m \<le> e2" by blast
  have rest: "list_all (exponent_from m) ds" using Cons.prems(1) by simp
  have nonneg: "0 \<le> (\<Sum>d\<leftarrow>ds. \<bar>scaled m d\<bar>)" by (rule sum_list_nonneg) auto
  have b1: "\<bar>scaled m (Fin s c e) + scaled m (Fin s2 c2 e2)\<bar> < 10 ^ 28"
    using Cons.prems(5) nonneg d by simp
  have mn: "min e e2 \<le> 0" using Cons.prems(4) by simp
  from dec_add_exact [OF assms(1) Cons.prems(3) me2 mn b1]
  obtain s' c' where a: "dec_add (Fin s c e) (Fin s2 c2 e2) = Inr (Fin s' c' (min e e2))"
    and v: "scaled m (Fin s' c' (min e e2)) = scaled m (Fin s c e) + scaled m (Fin s2 c2 e2)"
    by blast
  have step: "sum_from acc (d # ds) = sum_from (PyDec (Fin s' c' (min e e2))) ds"
    using a d Cons.prems(2) by (simp add: num_add_PyDec lift_dec_def)
  have td: "to_decimal (PyDec (Fin s' c' (min e e2))) = Fin s' c' (min e e2)"
    by (simp add: to_decimal_def)
  have lo: "m \<le> min e e2" using Cons.prems(3) me2 by simp
  have b2: "\<bar>scaled m (Fin s' c' (min e e2))\<bar> + (\<Sum>d\<leftarrow>ds. \<bar>scaled m d\<bar>) < 10 ^ 28"
    using Cons.prems(5) v d by simp
  from Cons.IH [OF rest td lo mn b2] show ?case
    unfolding step using v d by (auto simp: algebra_simps)
qed

lemma py_sum_exact:
  assumes "Etiny \<le> m" and "m \<le> 0" and "list_all (exponent_from m) ds"
    and "(\<Sum>d\<leftarrow>ds. \<bar>scaled m d\<bar>) < 10 ^ 28"
  shows "\<exists>n s c e. py_sum ds = Inr n \<and> to_decimal n = Fin s c e \<and> m \<le> e \<and> e \<le> 0
           \<and> scaled m (Fin s c e) = (\<Sum>d\<leftarrow>ds. scaled m d)"
proof -
  have t: "to_decimal (PyInt 0) = Fin False 0 0" by (simp add: to_decimal_def)
  have z: "scaled m (Fin False 0 0) = 0" by (simp add: scaled_def signed_def)
  have b: "\<bar>scaled m (Fin False 0 0)\<bar> + (\<Sum>d\<leftarrow>ds. \<bar>scaled m d\<bar>) < 10 ^ 28"
    using assms(4) z by simp
  have e0: "(0::int) \<le> 0" by simp
  from sum_from_exact [OF assms(1,3) t assms(2) e0 b] show ?thesis
    unfolding py_sum_def z by simp
qed

lemma num_sub_exact:
  assumes "Etiny \<le> m" and "to_decimal p = Fin s1 c1 e1" and "m \<le> e1" and "e1 \<le> 0"
    and "to_decimal q = Fin s2 c2 e2" and "m \<le> e2" and "e2 \<le> 0"
    and "\<bar>scaled m (Fin s1 c1 e1) - scaled m (Fin s2 c2 e2)\<bar> < 10 ^ 28"
  shows "\<exists>n s c e. num_sub p q = Inr n \<and> to_decimal n = Fin s c e \<and> m \<le> e
           \<and> scaled m (Fin s c e) = scaled m (Fin s1 c1 e1) - scaled m (Fin s2 c2 e2)"
proof -
  have neg: "scaled m (Fin (\<not> s2) c2 e2) = - scaled m (Fin s2 c2 e2)"
    by (simp add: scaled_def signed_def)
  have b: "\<bar>scaled m (Fin s1 c1 e1) + scaled m (Fin (\<not> s2) c2 e2)\<bar> < 10 ^ 28"
    using assms(8) by (simp add: neg)
  have mn: "min e1 e2 \<le> 0" using assms(4) by simp
  from dec_add_exact [OF assms(1,3,6) mn b]
  obtain s c where a: "dec_add (Fin s1 c1 e1) (Fin (\<not> s2) c2 e2) = Inr (Fin s c (min e1 e2))"
    and v: "scaled m (Fin s c (min e1 e2)) = scaled m (Fin s1 c1 e1) - scaled m (Fin s2 c2 e2)"
    by (auto simp: neg)
  have ds: "dec_sub (Fin s1 c1 e1) (Fin s2 c2 e2) = Inr (Fin s c (min e1 e2))"
    using a by (simp add: dec_sub_def check_nans_def is_snan_def is_nan_def copy_negate_def)
  show ?thesis
  proof (cases "\<exists>i j. p = PyInt i \<and> q = PyInt j")
    case True
    then obtain i j where p: "p = PyInt i" and q: "q = PyInt j" by blast
    have si: "signed s1 c1 = i" and e1: "e1 = 0" and sj: "signed s2 c2 = j" and e2: "e2 = 0"
      using assms(2,5) p q by (auto simp: to_decimal_def signed_def)
    have "num_sub p q = Inr (PyInt (i - j))" using p q by (simp add: num_sub_def)
    moreover have "to_decimal (PyInt (i - j)) = Fin (i - j < 0) (nat \<bar>i - j\<bar>) 0"
      by (simp add: to_decimal_def)
    moreover have "scaled m (Fin (i - j < 0) (nat \<bar>i - j\<bar>) 0)
                     = scaled m (Fin s1 c1 e1) - scaled m (Fin s2 c2 e2)"
      using si sj e1 e2 by (simp add: scaled_def signed_def algebra_simps)
    moreover have "m \<le> 0" using assms(3,4) by simp
    ultimately show ?thesis by blast
  next
    case False
    then have "num_sub p q = lift_dec (dec_sub (to_decimal p) (to_decimal q))"
      by (cases p; cases q) (simp_all add: num_sub_def)
    then have "num_sub p q = Inr (PyDec (Fin s c (min e1 e2)))"
      using ds assms(2,5) by (simp add: lift_dec_def)
    moreover have "to_decimal (PyDec (Fin s c (min e1 e2))) = Fin s c (min e1 e2)"
      by (simp add: to_decimal_def)
    moreover have "m \<le> min e1 e2" using assms(3,6) by simp
    ultimately show ?thesis using v by blast
  qed
qed

lemma dec_value_scaled:
  assumes "m \<le> e"
  shows "dec_value (Fin s c e) = of_int (scaled m (Fin s c e)) * 10 powi m"
proof -
  have "e = int (nat (e - m)) + m" using assms by simp
  then have "(10::rat) powi e = 10 powi (int (nat (e - m)) + m)" by simp
  also have "\<dots> = 10 powi int (nat (e - m)) * 10 powi m"
    by (rule power_int_add) simp
  finally have "(10::rat) powi e = 10 ^ nat (e - m) * 10 powi m"
    by (simp only: power_int_of_nat)
  then show ?thesis by (simp add: dec_value_def scaled_def)
qed

lemma sum_dec_value_scaled:
  assumes "list_all (exponent_from m) ds"
  shows "(\<Sum>d\<leftarrow>ds. dec_value d) = of_int (\<Sum>d\<leftarrow>ds. scaled m d) * 10 powi m"
  using assms
proof (induction ds)
  case Nil
  then show ?case by simp
next
  case (Cons d ds)
  have "exponent_from m d" using Cons.prems by simp
  from exponent_from_Fin [OF this]
  obtain s c e where d: "d = Fin s c e" and me: "m \<le> e" by blast
  from Cons.prems have "list_all (exponent_from m) ds" by simp
  from Cons.IH [OF this] show ?case
    using dec_value_scaled [OF me, of s c] d by (simp add: algebra_simps)
qed

end
